theory Spec2Isabelle
  imports Complex_Main
begin

section \<open>The rider service of go-learn-ca: driver selection and journey pricing\<close>

text \<open>
  The rider service answers a quote request in two steps. \<open>FindBestDriver\<close> asks the
  drivers service for the roster and picks the driver with the lowest rate;
  \<open>CalculateCost\<close> asks the directions service for the route and prices its first leg
  with a multiplier that doubles for A-roads, for a short roster and for night hours.
  \<open>RiderRequest\<close> is the HTTP handler that runs one after the other.

  The two services, the clock and the request body are outside the program. They are the
  fields of an environment record: what each outbound call returns, and the hour the
  clock shows. Every function returns its Go results together with the list of outbound
  calls it made, so that a statement can say that a call was never made.
  Log lines are not modelled.
\<close>

subsection \<open>float64\<close>

text \<open>
  A \<open>float64\<close> is a finite number, an infinity or NaN. A finite value is represented by
  the rational number it denotes; the values of the format are those that \<open>is_float64\<close>
  accepts. Comparisons follow IEEE 754 and are exact. Addition, multiplication and
  division follow IEEE 754 binary64 in the default rounding mode: the exact result is
  rounded to the nearest value of the format, ties to the even significand, with
  overflow to an infinity and gradual underflow. Not represented are the sign of zero
  (\<open>Finite 0\<close> stands for both zeros, which compare equal) and the payload of NaN. The
  program divides by the literals \<open>2\<close> and \<open>1000.0\<close> only, and it never adds to the
  result of a multiplication, so no operation can be fused.
\<close>

datatype float64 = Finite rat | PosInf | NegInf | NaN

fun is_finite :: "float64 \<Rightarrow> bool" where
  "is_finite (Finite q) = True"
| "is_finite PosInf = False"
| "is_finite NegInf = False"
| "is_finite NaN = False"

text \<open>The Go operators \<open><\<close>, \<open>>\<close> and \<open><=\<close>: false whenever an operand is NaN.\<close>

fun flt :: "float64 \<Rightarrow> float64 \<Rightarrow> bool" where
  "flt (Finite x) (Finite y) = (x < y)"
| "flt (Finite x) PosInf = True"
| "flt NegInf (Finite y) = True"
| "flt NegInf PosInf = True"
| "flt x y = False"

definition fgt :: "float64 \<Rightarrow> float64 \<Rightarrow> bool" where
  "fgt x y = flt y x"

fun fle :: "float64 \<Rightarrow> float64 \<Rightarrow> bool" where
  "fle (Finite x) (Finite y) = (x \<le> y)"
| "fle NaN y = False"
| "fle x NaN = False"
| "fle x PosInf = True"
| "fle NegInf y = True"
| "fle x y = False"

text \<open>
  Rounding. Magnitudes are counted in units of \<open>2\<^sup>-\<^sup>1\<^sup>0\<^sup>7\<^sup>4\<close>, the smallest positive
  value of the format. \<open>bit_length n\<close> is the number of binary digits of \<open>n\<close>. A
  magnitude \<open>s\<close> of more than 53 digits is rounded in steps of \<open>2\<^sup>j\<close>, where \<open>j\<close> is the
  number of digits beyond 53; a shorter one, which is subnormal or in the lowest normal
  binade, in steps of 1. \<open>round_half_even\<close> rounds to the nearest integer and takes the
  even one of two that are equally near. A rounded magnitude of \<open>2\<^sup>2\<^sup>0\<^sup>9\<^sup>8\<close> units, that is
  \<open>2\<^sup>1\<^sup>0\<^sup>2\<^sup>4\<close>, or more is an overflow.
\<close>

function bit_length :: "int \<Rightarrow> nat" where
  "bit_length n = (if n \<le> 0 then 0 else Suc (bit_length (n div 2)))"
  by pat_completeness auto
termination
  by (relation "measure nat") auto

definition round_half_even :: "rat \<Rightarrow> int" where
  "round_half_even x =
     (let f = \<lfloor>x\<rfloor>; d = x - of_int f
      in if d < 1 / 2 then f else if 1 / 2 < d then f + 1 else if even f then f else f + 1)"

definition round_mag :: "rat \<Rightarrow> rat" where
  "round_mag s =
     (let j = bit_length \<lfloor>s\<rfloor> - 53
      in of_int (round_half_even (s / 2 ^ j)) * 2 ^ j)"

definition round64 :: "rat \<Rightarrow> float64" where
  "round64 q =
     (let m = round_mag (\<bar>q\<bar> * 2 ^ 1074)
      in if 2 ^ 2098 \<le> m then (if 0 < q then PosInf else NegInf)
         else Finite (sgn q * m / 2 ^ 1074))"

text \<open>
  The finite values of the format: a significand below \<open>2\<^sup>5\<^sup>3\<close> times a power of two that
  is at least \<open>2\<^sup>-\<^sup>1\<^sup>0\<^sup>7\<^sup>4\<close>, of magnitude below \<open>2\<^sup>1\<^sup>0\<^sup>2\<^sup>4\<close>.
\<close>

definition is_float64 :: "rat \<Rightarrow> bool" where
  "is_float64 q =
     (\<exists>(n::nat) (j::nat). \<bar>q\<bar> * 2 ^ 1074 = of_nat n * 2 ^ j \<and> n < 2 ^ 53 \<and> \<bar>q\<bar> < 2 ^ 1024)"

text \<open>The Go operators \<open>+\<close>, \<open>*\<close> and \<open>/\<close>.\<close>

fun fadd :: "float64 \<Rightarrow> float64 \<Rightarrow> float64" where
  "fadd (Finite x) (Finite y) = round64 (x + y)"
| "fadd NaN y = NaN"
| "fadd x NaN = NaN"
| "fadd PosInf NegInf = NaN"
| "fadd NegInf PosInf = NaN"
| "fadd PosInf y = PosInf"
| "fadd NegInf y = NegInf"
| "fadd x PosInf = PosInf"
| "fadd x NegInf = NegInf"

definition inf_of_sign :: "rat \<Rightarrow> float64" where
  "inf_of_sign s = (if s = 0 then NaN else if 0 < s then PosInf else NegInf)"

fun fmul :: "float64 \<Rightarrow> float64 \<Rightarrow> float64" where
  "fmul (Finite x) (Finite y) = round64 (x * y)"
| "fmul NaN y = NaN"
| "fmul x NaN = NaN"
| "fmul (Finite x) PosInf = inf_of_sign x"
| "fmul (Finite x) NegInf = inf_of_sign (- x)"
| "fmul PosInf (Finite y) = inf_of_sign y"
| "fmul NegInf (Finite y) = inf_of_sign (- y)"
| "fmul PosInf PosInf = PosInf"
| "fmul NegInf NegInf = PosInf"
| "fmul PosInf NegInf = NegInf"
| "fmul NegInf PosInf = NegInf"

text \<open>A zero divisor is taken as positive zero.\<close>

fun fdiv :: "float64 \<Rightarrow> float64 \<Rightarrow> float64" where
  "fdiv (Finite x) (Finite y) = (if y = 0 then inf_of_sign x else round64 (x / y))"
| "fdiv NaN y = NaN"
| "fdiv x NaN = NaN"
| "fdiv (Finite x) PosInf = Finite 0"
| "fdiv (Finite x) NegInf = Finite 0"
| "fdiv PosInf (Finite y) = (if 0 \<le> y then PosInf else NegInf)"
| "fdiv NegInf (Finite y) = (if 0 \<le> y then NegInf else PosInf)"
| "fdiv PosInf y = NaN"
| "fdiv NegInf y = NaN"

subsection \<open>Data\<close>

type_synonym error = string

record Driver =
  Name :: string
  Rate :: float64

record Journey =
  Start :: string
  End :: string

record Step =
  step_Distance_Value :: float64
  Html_instructions :: string

record Leg =
  leg_Distance_Value :: float64
  Steps :: "Step list"

record Route =
  Legs :: "Leg list"

record Directions =
  Routes :: "Route list"

record Response =
  FinalRate :: float64
  Cost :: float64

text \<open>The zero value of \<open>Driver\<close>, which \<open>var driver Driver\<close> declares.\<close>

definition zero_Driver :: Driver where
  "zero_Driver = \<lparr>Name = [], Rate = Finite 0\<rparr>"

subsection \<open>The environment\<close>

text \<open>
  What the drivers service does to the request of \<open>FindBestDriver\<close>: the request
  cannot be created, it cannot be sent, its body does not decode into
  \<open>map[string]Driver\<close>, or it decodes. A decoded roster is the list of the map's
  entries in the order in which \<open>range\<close> visits them; Go leaves that order open, so
  a statement about a roster is a statement about every list.
\<close>

datatype drivers_outcome =
    Drivers_NewRequest_failed
  | Drivers_Do_failed
  | Drivers_Decode_failed
  | Drivers_Decoded "(string \<times> Driver) list"

datatype directions_outcome =
    Marshal_failed
  | Directions_NewRequest_failed
  | Directions_Do_failed
  | Directions_Decode_failed
  | Directions_Decoded Directions

record env =
  drivers_service :: drivers_outcome
  directions_service :: "Journey \<Rightarrow> directions_outcome"
  clock_hour :: int

datatype event = Drivers_request | Call_CalculateCost | Directions_request Journey

text \<open>
  A number that \<open>encoding/json\<close> decodes into a \<open>float64\<close> is finite: the JSON grammar
  has no infinity and no NaN, and a literal out of range is a decoding error.
\<close>

definition decoded_roster :: "(string \<times> Driver) list \<Rightarrow> bool" where
  "decoded_roster drivers = list_all (\<lambda>kd. is_finite (Rate (snd kd))) drivers"

subsection \<open>FindBestDriver\<close>

text \<open>The loop \<open>for _, curDriver := range drivers\<close> on the pair \<open>(lowest, driver)\<close>.\<close>

fun lowest_loop :: "(string \<times> Driver) list \<Rightarrow> float64 \<times> Driver \<Rightarrow> float64 \<times> Driver" where
  "lowest_loop [] (lowest, driver) = (lowest, driver)"
| "lowest_loop ((key, curDriver) # rest) (lowest, driver) =
     (if flt (Rate curDriver) lowest
      then lowest_loop rest (Rate curDriver, curDriver)
      else lowest_loop rest (lowest, driver))"

definition FindBestDriver :: "env \<Rightarrow> (Driver \<times> int \<times> error option) \<times> event list" where
  "FindBestDriver e =
     (case drivers_service e of
        Drivers_NewRequest_failed \<Rightarrow>
          ((zero_Driver, 1, Some ''Error: HTTP request creation gailed''), [])
      | Drivers_Do_failed \<Rightarrow>
          ((zero_Driver, 1, Some ''Error: HTTP request sending gailed''), [Drivers_request])
      | Drivers_Decode_failed \<Rightarrow>
          ((zero_Driver, 1, Some ''Error: Response body decoding failed''), [Drivers_request])
      | Drivers_Decoded drivers \<Rightarrow>
          ((snd (lowest_loop drivers (PosInf, zero_Driver)), int (length drivers), None),
           [Drivers_request]))"

subsection \<open>CalculateCost\<close>

text \<open>
  \<open>regexp.Match("A(\\d)+", b)\<close> reports whether some substring of \<open>b\<close> matches: a
  capital \<open>A\<close> with a decimal digit right after it (more digits may follow). The
  pattern is a constant that compiles, so the error result is always nil.
\<close>

definition is_digit :: "char \<Rightarrow> bool" where
  "is_digit c = (c \<in> set ''0123456789'')"

fun has_A_digits :: "string \<Rightarrow> bool" where
  "has_A_digits [] = False"
| "has_A_digits [c] = False"
| "has_A_digits (c # d # rest) = ((c = CHR ''A'' \<and> is_digit d) \<or> has_A_digits (d # rest))"

definition regexp_Match_A_digits :: "string \<Rightarrow> bool \<times> error option" where
  "regexp_Match_A_digits b = (has_A_digits b, None)"

text \<open>The loop over the steps of the leg, on \<open>aRoadTotal\<close>; \<open>Inl\<close> is the early return.\<close>

fun aRoadTotal_loop :: "Step list \<Rightarrow> float64 \<Rightarrow> error + float64" where
  "aRoadTotal_loop [] aRoadTotal = Inr aRoadTotal"
| "aRoadTotal_loop (step # rest) aRoadTotal =
     (case regexp_Match_A_digits (Html_instructions step) of
        (matched, err) \<Rightarrow>
          if matched \<and> err = None
          then aRoadTotal_loop rest (fadd aRoadTotal (step_Distance_Value step))
          else (case err of
                  Some er \<Rightarrow> Inl er
                | None \<Rightarrow> aRoadTotal_loop rest aRoadTotal))"

text \<open>The three criteria, applied in turn to \<open>multiplier := 1.0\<close>.\<close>

definition surge :: "bool \<Rightarrow> bool \<Rightarrow> bool \<Rightarrow> float64" where
  "surge road scarce night =
     (let multiplier = Finite 1;
          multiplier = (if road then fmul multiplier (Finite 2) else multiplier);
          multiplier = (if scarce then fmul multiplier (Finite 2) else multiplier);
          multiplier = (if night then fmul multiplier (Finite 2) else multiplier)
      in multiplier)"

definition multiplier_of :: "float64 \<Rightarrow> float64 \<Rightarrow> int \<Rightarrow> int \<Rightarrow> float64" where
  "multiplier_of aRoadTotal legDistance numDrivers hour =
     surge (fgt aRoadTotal (fdiv legDistance (Finite 2)))
           (numDrivers < 5)
           (hour > 22 \<or> hour < 6)"

text \<open>The part of \<open>CalculateCost\<close> after the directions are decoded.\<close>

definition price :: "Directions \<Rightarrow> Driver \<Rightarrow> int \<Rightarrow> int \<Rightarrow> float64 \<times> float64 \<times> error option" where
  "price directions driver numDrivers hour =
     (case Routes directions of
        [] \<Rightarrow> (Finite 0, Finite 0, Some ''Error: No Route Found'')
      | route # other_routes \<Rightarrow>
          (case Legs route of
             [] \<Rightarrow> (Finite 0, Finite 0, Some ''Error: No Route Found'')
           | leg # other_legs \<Rightarrow>
               (case aRoadTotal_loop (Steps leg) (Finite 0) of
                  Inl err \<Rightarrow> (Finite 0, Finite 0, Some err)
                | Inr aRoadTotal \<Rightarrow>
                    (let multiplier =
                           multiplier_of aRoadTotal (leg_Distance_Value leg) numDrivers hour;
                         cost = fmul (fmul (fdiv (leg_Distance_Value leg) (Finite 1000))
                                           (Rate driver)) multiplier
                     in (cost, fmul multiplier (Rate driver), None)))))"

definition CalculateCost ::
  "env \<Rightarrow> Journey \<Rightarrow> Driver \<Rightarrow> int \<Rightarrow> (float64 \<times> float64 \<times> error option) \<times> event list" where
  "CalculateCost e journey driver numDrivers =
     (case directions_service e journey of
        Marshal_failed \<Rightarrow>
          ((Finite 0, Finite 0, Some ''Error: Could not create JSON from journey''), [])
      | Directions_NewRequest_failed \<Rightarrow>
          ((Finite 0, Finite 0, Some ''Error: HTTP request creation gailed''), [])
      | Directions_Do_failed \<Rightarrow>
          ((Finite 0, Finite 0, Some ''Error: HTTP request sending gailed''),
           [Directions_request journey])
      | Directions_Decode_failed \<Rightarrow>
          ((Finite 0, Finite 0, Some ''Error: Response body decoding failed''),
           [Directions_request journey])
      | Directions_Decoded directions \<Rightarrow>
          (price directions driver numDrivers (clock_hour e), [Directions_request journey]))"

subsection \<open>RiderRequest\<close>

text \<open>
  What the handler leaves in the \<open>ResponseWriter\<close>: the status (200 when the handler
  writes a body without a header) and the body. \<open>json.Marshal\<close> of a \<open>Response\<close>
  fails exactly when one of its two numbers is an infinity or NaN.
\<close>

datatype body = No_body | Text string | Json Response

record http_response =
  status :: nat
  content :: body

definition json_Marshal_Response :: "Response \<Rightarrow> error + Response" where
  "json_Marshal_Response response =
     (if is_finite (FinalRate response) \<and> is_finite (Cost response)
      then Inr response
      else Inl ''json: unsupported value'')"

definition RiderRequest :: "env \<Rightarrow> error + Journey \<Rightarrow> http_response \<times> event list" where
  "RiderRequest e request_body =
     (case request_body of
        Inl err \<Rightarrow> (\<lparr>status = 400, content = No_body\<rparr>, [])
      | Inr journey \<Rightarrow>
          (case FindBestDriver e of
             ((drv, num, err1), calls1) \<Rightarrow>
               if err1 = None then
                 if Name drv \<noteq> [] then
                   (case CalculateCost e journey drv num of
                      ((cst, final, err), calls2) \<Rightarrow>
                        if err = None then
                          (case json_Marshal_Response \<lparr>FinalRate = final, Cost = cst\<rparr> of
                             Inr enc \<Rightarrow>
                               (\<lparr>status = 200, content = Json enc\<rparr>,
                                calls1 @ Call_CalculateCost # calls2)
                           | Inl err2 \<Rightarrow>
                               (\<lparr>status = 500, content = No_body\<rparr>,
                                calls1 @ Call_CalculateCost # calls2))
                        else (\<lparr>status = 500, content = No_body\<rparr>,
                              calls1 @ Call_CalculateCost # calls2))
                 else (\<lparr>status = 200, content = Text ''No drivers available at this time.''\<rparr>,
                       calls1)
               else (\<lparr>status = 500, content = No_body\<rparr>, calls1)))"

subsection \<open>Patterns in the instruction text\<close>

text \<open>
  The major-road pattern as a property of the text: a capital \<open>A\<close>, then one or more
  decimal digits, anywhere in it.
\<close>

definition contains_A_number :: "string \<Rightarrow> bool" where
  "contains_A_number s =
     (\<exists>pre digits post. s = pre @ CHR ''A'' # digits @ post
        \<and> digits \<noteq> [] \<and> list_all is_digit digits)"

text \<open>
  The specification describes the pattern as a letter code followed by one or more
  digits, anywhere in the instruction: some letter with a digit right after it.
\<close>

definition is_letter :: "char \<Rightarrow> bool" where
  "is_letter c = (c \<in> set ''ABCDEFGHIJKLMNOPQRSTUVWXYZabcdefghijklmnopqrstuvwxyz'')"

fun letter_code_then_digits :: "string \<Rightarrow> bool" where
  "letter_code_then_digits [] = False"
| "letter_code_then_digits [c] = False"
| "letter_code_then_digits (c # d # rest) =
     ((is_letter c \<and> is_digit d) \<or> letter_code_then_digits (d # rest))"

subsection \<open>Example inputs\<close>

text \<open>
  The worked example of the specification: three drivers with the rates 10, 7 and 12, a
  leg of 10000 m of which 6000 m run on the A38, at two in the afternoon. The steps of
  the leg add up to 9990 m, so the leg's own distance differs from their sum.
\<close>

definition example_journey :: Journey where
  "example_journey = \<lparr>Start = ''Exeter'', End = ''Plymouth''\<rparr>"

definition example_roster :: "(string \<times> Driver) list" where
  "example_roster =
     [(''1'', \<lparr>Name = ''Ann'', Rate = Finite 10\<rparr>),
      (''2'', \<lparr>Name = ''Bob'', Rate = Finite 7\<rparr>),
      (''3'', \<lparr>Name = ''Cat'', Rate = Finite 12\<rparr>)]"

definition example_leg :: Leg where
  "example_leg =
     \<lparr>leg_Distance_Value = Finite 10000,
      Steps = [\<lparr>step_Distance_Value = Finite 6000,
                 Html_instructions = ''Merge onto <b>A38</b>''\<rparr>,
               \<lparr>step_Distance_Value = Finite 3990,
                 Html_instructions = ''Turn left onto <b>Royal Parade</b>''\<rparr>]\<rparr>"

definition example_directions :: Directions where
  "example_directions = \<lparr>Routes = [\<lparr>Legs = [example_leg]\<rparr>]\<rparr>"

definition service_env :: "drivers_outcome \<Rightarrow> directions_outcome \<Rightarrow> int \<Rightarrow> env" where
  "service_env drivers directions hour =
     \<lparr>drivers_service = drivers, directions_service = (\<lambda>journey. directions),
      clock_hour = hour\<rparr>"

text \<open>
  A second leg, a roster whose cheapest entry has no name, and two legs of distance 0
  whose only step is 5 m long: one on the A30, one on a road without a number.
\<close>

definition detour_leg :: Leg where
  "detour_leg =
     \<lparr>leg_Distance_Value = Finite 2500,
      Steps = [\<lparr>step_Distance_Value = Finite 2500,
                 Html_instructions = ''Continue onto <b>A379</b>''\<rparr>]\<rparr>"

definition unnamed_roster :: "(string \<times> Driver) list" where
  "unnamed_roster =
     [(''Dan'', \<lparr>Name = ''Dan'', Rate = Finite 5\<rparr>),
      (''anon'', \<lparr>Name = [], Rate = Finite 3\<rparr>)]"

definition zero_distance_leg :: Leg where
  "zero_distance_leg =
     \<lparr>leg_Distance_Value = Finite 0,
      Steps = [\<lparr>step_Distance_Value = Finite 5,
                 Html_instructions = ''Turn right onto <b>A30</b>''\<rparr>]\<rparr>"

definition unmatched_zero_leg :: Leg where
  "unmatched_zero_leg =
     \<lparr>leg_Distance_Value = Finite 0,
      Steps = [\<lparr>step_Distance_Value = Finite 5,
                 Html_instructions = ''Turn right onto <b>Mill Lane</b>''\<rparr>]\<rparr>"

text \<open>
  Two legs at the ends of the range of the format: half a kilometre, for a driver whose
  rate is \<open>2\<^sup>1\<^sup>0\<^sup>2\<^sup>3\<close>, and a leg of three units of \<open>2\<^sup>-\<^sup>1\<^sup>0\<^sup>7\<^sup>4\<close> m of which two are on
  the A30.
\<close>

definition half_km_leg :: Leg where
  "half_km_leg = \<lparr>leg_Distance_Value = Finite 500, Steps = []\<rparr>"

definition subnormal_leg :: Leg where
  "subnormal_leg =
     \<lparr>leg_Distance_Value = Finite (3 / 2 ^ 1074),
      Steps = [\<lparr>step_Distance_Value = Finite (2 / 2 ^ 1074),
                 Html_instructions = ''Turn right onto <b>A30</b>''\<rparr>]\<rparr>"

section \<open>Properties\<close>

subsection \<open>Comparisons\<close>

lemma is_finite_iff: "is_finite x \<longleftrightarrow> (\<exists>q. x = Finite q)"
  by (cases x) simp_all

lemma fle_Finite_refl: "is_finite x \<Longrightarrow> fle x x"
  by (cases x) simp_all

lemma not_flt_fle: "is_finite x \<Longrightarrow> is_finite y \<Longrightarrow> \<not> flt x y \<Longrightarrow> fle y x"
  by (cases x; cases y) simp_all

lemma flt_fle: "flt x y \<Longrightarrow> fle x y"
  by (cases x; cases y) simp_all

lemma fle_trans: "fle x y \<Longrightarrow> fle y z \<Longrightarrow> fle x z"
  by (cases x; cases y; cases z) simp_all

subsection \<open>Rounding\<close>

declare bit_length.simps [simp del]

lemma bit_length_le_iff: "bit_length n \<le> w \<longleftrightarrow> n < 2 ^ w"
proof (induction n arbitrary: w rule: bit_length.induct)
  case (1 n)
  show ?case
  proof (cases "n \<le> 0")
    case True
    then have "bit_length n = 0" by (subst bit_length.simps) simp
    moreover from True have "n < 2 ^ w" by (rule order_le_less_trans) simp
    ultimately show ?thesis by simp
  next
    case False
    then have unfold: "bit_length n = Suc (bit_length (n div 2))"
      by (subst bit_length.simps) simp
    show ?thesis
    proof (cases w)
      case 0
      with False unfold show ?thesis by simp
    next
      case (Suc v)
      from "1.IH" [OF False, of v] have "bit_length (n div 2) \<le> v \<longleftrightarrow> n div 2 < 2 ^ v" .
      also have "\<dots> \<longleftrightarrow> n < 2 * 2 ^ v" by presburger
      also have "2 * (2::int) ^ v = 2 ^ Suc v" by simp
      finally show ?thesis by (simp add: unfold Suc)
    qed
  qed
qed


lemma shift_le_iff:
  "bit_length \<lfloor>s\<rfloor> - 53 \<le> j \<longleftrightarrow> s < 2 ^ (53 + j)" for s :: rat
proof -
  have "bit_length \<lfloor>s\<rfloor> - 53 \<le> j \<longleftrightarrow> bit_length \<lfloor>s\<rfloor> \<le> 53 + j" by arith
  also have "\<dots> \<longleftrightarrow> \<lfloor>s\<rfloor> < 2 ^ (53 + j)" by (rule bit_length_le_iff)
  also have "\<dots> \<longleftrightarrow> s < of_int (2 ^ (53 + j))" by (rule floor_less_iff)
  finally show ?thesis by simp
qed

lemma shift_upper: "s < 2 ^ (53 + (bit_length \<lfloor>s\<rfloor> - 53))" for s :: rat
  using shift_le_iff [of s "bit_length \<lfloor>s\<rfloor> - 53"] by simp

lemma shift_lower:
  "0 < bit_length \<lfloor>s\<rfloor> - 53 \<Longrightarrow> 2 ^ (52 + (bit_length \<lfloor>s\<rfloor> - 53)) \<le> s" for s :: rat
proof (rule ccontr)
  let ?j = "bit_length \<lfloor>s\<rfloor> - 53"
  assume pos: "0 < ?j" and "\<not> 2 ^ (52 + ?j) \<le> s"
  then have "s < 2 ^ (53 + (?j - 1))" by (simp add: not_le)
  then have "?j \<le> ?j - 1" by (simp only: shift_le_iff)
  with pos show False by arith
qed

lemma shift_eqI:
  "s < 2 ^ (53 + j) \<Longrightarrow> 2 ^ (52 + j) \<le> s \<Longrightarrow> bit_length \<lfloor>s\<rfloor> - 53 = j" for s :: rat
proof (rule antisym)
  assume "s < 2 ^ (53 + j)"
  then show "bit_length \<lfloor>s\<rfloor> - 53 \<le> j" by (simp only: shift_le_iff)
next
  assume low: "2 ^ (52 + j) \<le> s"
  show "j \<le> bit_length \<lfloor>s\<rfloor> - 53"
  proof (cases j)
    case 0
    then show ?thesis by simp
  next
    case (Suc i)
    have "\<not> bit_length \<lfloor>s\<rfloor> - 53 \<le> i"
      using low by (simp add: shift_le_iff Suc not_less)
    then show ?thesis by (simp add: Suc)
  qed
qed

lemma round_mag_unfold:
  "round_mag s =
     of_int (round_half_even (s / 2 ^ (bit_length \<lfloor>s\<rfloor> - 53))) * 2 ^ (bit_length \<lfloor>s\<rfloor> - 53)"
  by (simp add: round_mag_def Let_def)

lemma round_half_even_of_int [simp]: "round_half_even (of_int k) = k"
  by (simp add: round_half_even_def)

lemma round_half_even_of_nat_power [simp]:
  "round_half_even (of_nat n * 2 ^ k) = int n * 2 ^ k"
  using round_half_even_of_int [of "int n * 2 ^ k"] by simp

lemma round_half_even_ge_floor: "\<lfloor>x\<rfloor> \<le> round_half_even x"
  by (simp add: round_half_even_def Let_def)

lemma round_half_even_le_floor: "round_half_even x \<le> \<lfloor>x\<rfloor> + 1"
  by (simp add: round_half_even_def Let_def)

text \<open>A magnitude with at most 53 significant bits is not changed.\<close>

lemma round_mag_exact:
  assumes "s = of_nat n * 2 ^ j" and "n < 2 ^ 53"
  shows "round_mag s = s"
proof -
  define i where "i = bit_length \<lfloor>s\<rfloor> - 53"
  have "s < 2 ^ 53 * 2 ^ j"
    unfolding assms(1) using assms(2)
    by (intro mult_strict_right_mono) simp_all
  then have "s < 2 ^ (53 + j)" by (simp add: power_add)
  then have le: "i \<le> j" unfolding i_def by (simp only: shift_le_iff)
  then have split: "(2::rat) ^ j = 2 ^ (j - i) * 2 ^ i" by (simp flip: power_add)
  have "s / 2 ^ i = of_nat n * (2 ^ (j - i) * 2 ^ i) / 2 ^ i"
    unfolding assms(1) by (subst split) (rule refl)
  also have "\<dots> = of_int (int n * 2 ^ (j - i))" by simp
  finally have "round_half_even (s / 2 ^ i) = int n * 2 ^ (j - i)" by simp
  then have "round_mag s = of_int (int n * 2 ^ (j - i)) * 2 ^ i"
    unfolding i_def by (simp only: round_mag_unfold)
  also have "\<dots> = of_nat n * (2 ^ (j - i) * 2 ^ i)" by simp
  also have "\<dots> = of_nat n * 2 ^ j" using le by (simp flip: power_add)
  finally show ?thesis by (simp only: assms(1))
qed

text \<open>Doubling a magnitude outside the subnormal range doubles the rounded magnitude.\<close>

lemma round_mag_scale:
  assumes "2 ^ 52 \<le> s"
  shows "round_mag (s * 2 ^ c) = round_mag s * 2 ^ c"
proof -
  let ?i = "bit_length \<lfloor>s\<rfloor> - 53"
  have up: "s * 2 ^ c < 2 ^ (53 + (?i + c))"
    using shift_upper [of s] by (simp add: power_add)
  have "2 ^ (52 + ?i) \<le> s"
    using assms shift_lower [of s] by (cases "?i = 0") simp_all
  then have low: "2 ^ (52 + (?i + c)) \<le> s * 2 ^ c"
    by (simp add: power_add)
  from up low have shift: "bit_length \<lfloor>s * 2 ^ c\<rfloor> - 53 = ?i + c" by (rule shift_eqI)
  have "s * 2 ^ c / 2 ^ (?i + c) = s / 2 ^ ?i" by (simp add: power_add)
  then have "round_mag (s * 2 ^ c)
      = of_int (round_half_even (s / 2 ^ ?i)) * 2 ^ (?i + c)"
    by (simp only: round_mag_unfold [of "s * 2 ^ c"] shift)
  also have "\<dots> = round_mag s * 2 ^ c"
    by (simp only: round_mag_unfold [of s] power_add mult.assoc)
  finally show ?thesis .
qed

lemma round_mag_ge:
  assumes "2 ^ 52 \<le> s"
  shows "2 ^ 52 \<le> round_mag s"
proof -
  let ?i = "bit_length \<lfloor>s\<rfloor> - 53"
  have "2 ^ (52 + ?i) \<le> s"
    using assms shift_lower [of s] by (cases "?i = 0") simp_all
  then have "(2::rat) ^ 52 \<le> s / 2 ^ ?i" by (simp add: power_add pos_le_divide_eq)
  then have "(2::int) ^ 52 \<le> \<lfloor>s / 2 ^ ?i\<rfloor>" by (simp add: le_floor_iff)
  also have "\<dots> \<le> round_half_even (s / 2 ^ ?i)" by (rule round_half_even_ge_floor)
  finally have int_ge: "(2::int) ^ 52 \<le> round_half_even (s / 2 ^ ?i)" .
  then have "of_int ((2::int) ^ 52) \<le> (of_int (round_half_even (s / 2 ^ ?i)) :: rat)"
    by (simp only: of_int_le_iff)
  then have rat_ge: "(2::rat) ^ 52 \<le> of_int (round_half_even (s / 2 ^ ?i))" by simp
  have "(2::rat) ^ 52 * 1 \<le> of_int (round_half_even (s / 2 ^ ?i)) * 2 ^ ?i"
    using rat_ge by (intro mult_mono) simp_all
  then show ?thesis by (simp only: round_mag_unfold mult_1_right)
qed

text \<open>A rounded magnitude has at most 53 significant bits.\<close>

lemma round_mag_significand:
  assumes "0 \<le> s"
  shows "\<exists>(n::nat) j. round_mag s = of_nat n * 2 ^ j \<and> n < 2 ^ 53"
proof -
  let ?i = "bit_length \<lfloor>s\<rfloor> - 53"
  let ?r = "round_half_even (s / 2 ^ ?i)"
  have "s / 2 ^ ?i < 2 ^ 53"
    using shift_upper [of s] by (simp add: power_add pos_divide_less_eq)
  then have "\<lfloor>s / 2 ^ ?i\<rfloor> < 2 ^ 53" by (simp add: floor_less_iff)
  with round_half_even_le_floor [of "s / 2 ^ ?i"] have hi: "?r \<le> 2 ^ 53" by linarith
  have "0 \<le> s / 2 ^ ?i" using assms by simp
  then have "0 \<le> \<lfloor>s / 2 ^ ?i\<rfloor>" by simp
  with round_half_even_ge_floor [of "s / 2 ^ ?i"] have lo: "0 \<le> ?r" by linarith
  have mag: "round_mag s = of_int ?r * 2 ^ ?i" by (rule round_mag_unfold)
  show ?thesis
  proof (cases "?r = 2 ^ 53")
    case True
    then have "round_mag s = of_nat (2 ^ 52) * 2 ^ Suc ?i" by (simp add: mag)
    moreover have "(2::nat) ^ 52 < 2 ^ 53" by simp
    ultimately show ?thesis by blast
  next
    case False
    with hi have "?r < 2 ^ 53" by simp
    with lo have "nat ?r < 2 ^ 53" by (simp add: nat_less_iff)
    moreover from lo have "round_mag s = of_nat (nat ?r) * 2 ^ ?i" by (simp add: mag)
    ultimately show ?thesis by blast
  qed
qed

lemma round_mag_idem: "0 \<le> s \<Longrightarrow> round_mag (round_mag s) = round_mag s"
  using round_mag_significand [of s] round_mag_exact by blast


lemma overflow_threshold: "(2::rat) ^ 2098 = 2 ^ 1024 * 2 ^ 1074"
  by (simp flip: power_add)

text \<open>Rounding a number whose magnitude has at most 53 significant bits.\<close>

lemma round64_significand:
  assumes "\<bar>q\<bar> * 2 ^ 1074 = of_nat n * 2 ^ j" and "n < 2 ^ 53"
  shows "round64 q =
     (if 2 ^ 1024 \<le> \<bar>q\<bar> then (if 0 < q then PosInf else NegInf) else Finite q)"
proof -
  have mag: "round_mag (\<bar>q\<bar> * 2 ^ 1074) = \<bar>q\<bar> * 2 ^ 1074"
    using assms by (rule round_mag_exact)
  have over: "2 ^ 2098 \<le> \<bar>q\<bar> * 2 ^ 1074 \<longleftrightarrow> 2 ^ 1024 \<le> \<bar>q\<bar>"
    unfolding overflow_threshold by (rule mult_le_cancel_right_pos) simp
  have "sgn q * (\<bar>q\<bar> * 2 ^ 1074) / 2 ^ 1074 = sgn q * \<bar>q\<bar>" by simp
  also have "\<dots> = q" by (rule mult_sgn_abs)
  finally have undo: "sgn q * (\<bar>q\<bar> * 2 ^ 1074) / 2 ^ 1074 = q" .
  show ?thesis
    unfolding round64_def Let_def mag over undo ..
qed

lemma round64_exact: "is_float64 q \<Longrightarrow> round64 q = Finite q"
  unfolding is_float64_def
  by (auto simp: round64_significand not_le [symmetric])

lemma is_float64_0 [simp]: "is_float64 0"
  unfolding is_float64_def by (intro exI [of _ 0]) simp

lemma is_float64_of_int: "\<bar>k\<bar> < 2 ^ 53 \<Longrightarrow> is_float64 (of_int k)"
proof -
  assume small: "\<bar>k\<bar> < 2 ^ 53"
  then have "nat \<bar>k\<bar> < 2 ^ 53" by (simp add: nat_less_iff)
  moreover have "\<bar>of_int k :: rat\<bar> * 2 ^ 1074 = of_nat (nat \<bar>k\<bar>) * 2 ^ 1074" by simp
  moreover have "\<bar>of_int k :: rat\<bar> < 2 ^ 1024"
  proof -
    from small have "(of_int \<bar>k\<bar> :: rat) < of_int (2 ^ 53)" by (simp only: of_int_less_iff)
    then have "\<bar>of_int k :: rat\<bar> < 2 ^ 53" by simp
    also have "(2::rat) ^ 53 \<le> 2 ^ 1024" by (rule power_increasing) simp_all
    finally show ?thesis .
  qed
  ultimately show ?thesis unfolding is_float64_def by blast
qed

lemma is_float64_numeral: "numeral w < (2::int) ^ 53 \<Longrightarrow> is_float64 (numeral w)"
  using is_float64_of_int [of "numeral w"] by simp

lemma round64_0 [simp]: "round64 0 = Finite 0"
  by (rule round64_exact) simp

lemma round64_1 [simp]: "round64 1 = Finite 1"
  using round64_exact [OF is_float64_of_int [of 1]] by simp

lemma round64_numeral [simp]:
  "numeral w < (2::int) ^ 53 \<Longrightarrow> round64 (numeral w) = Finite (numeral w)"
  by (rule round64_exact) (rule is_float64_numeral)

lemma is_float64_power2: "e \<le> 1023 \<Longrightarrow> is_float64 (2 ^ e)"
proof -
  assume "e \<le> 1023"
  then have "(2::rat) ^ e < 2 ^ 1024" by (intro power_strict_increasing) simp_all
  moreover have "\<bar>(2::rat) ^ e\<bar> * 2 ^ 1074 = of_nat 1 * 2 ^ (e + 1074)" by (simp add: power_add)
  moreover have "(1::nat) < 2 ^ 53" by simp
  moreover have "\<bar>(2::rat) ^ e\<bar> = 2 ^ e" by simp
  ultimately show ?thesis unfolding is_float64_def by metis
qed


text \<open>Outside the subnormal range, multiplying by a power of two commutes with rounding.\<close>

lemma round64_scale:
  assumes normal: "1 / 2 ^ 1022 \<le> \<bar>z\<bar>"
  shows "fmul (round64 z) (Finite (2 ^ c)) = round64 (z * 2 ^ c)"
proof -
  define s where "s = \<bar>z\<bar> * 2 ^ 1074"
  define m where "m = round_mag s"
  have "(2::rat) ^ 1074 = 2 ^ 52 * 2 ^ 1022" by (simp flip: power_add)
  then have "(2::rat) ^ 52 = 1 / 2 ^ 1022 * 2 ^ 1074" by simp
  also have "\<dots> \<le> s" unfolding s_def using normal by (intro mult_right_mono) simp_all
  finally have s_ge: "2 ^ 52 \<le> s" .
  then have m_ge: "2 ^ 52 \<le> m" unfolding m_def by (rule round_mag_ge)
  then have m_pos: "0 < m" by (rule less_le_trans [rotated]) simp
  from normal have z_nz: "z \<noteq> 0" by (auto simp: not_le [symmetric])
  have s'_def: "\<bar>z * 2 ^ c\<bar> * 2 ^ 1074 = s * 2 ^ c"
    by (simp add: s_def abs_mult)
  have mag': "round_mag (s * 2 ^ c) = m * 2 ^ c"
    unfolding m_def using s_ge by (rule round_mag_scale)
  have rhs: "round64 (z * 2 ^ c) =
      (if 2 ^ 2098 \<le> m * 2 ^ c then (if 0 < z then PosInf else NegInf)
       else Finite (sgn z * (m * 2 ^ c) / 2 ^ 1074))"
    unfolding round64_def Let_def s'_def mag'
    by (simp add: zero_less_mult_iff sgn_mult)
  have lhs: "round64 z =
      (if 2 ^ 2098 \<le> m then (if 0 < z then PosInf else NegInf)
       else Finite (sgn z * m / 2 ^ 1074))"
    unfolding round64_def Let_def s_def [symmetric] m_def [symmetric] ..
  have grow: "m \<le> m * 2 ^ c"
    using m_pos by (simp add: mult_le_cancel_left1)
  show ?thesis
  proof (cases "2 ^ 2098 \<le> m")
    case True
    from True grow have "2 ^ 2098 \<le> m * 2 ^ c" by (rule order_trans)
    with True show ?thesis
      unfolding lhs rhs by (simp add: inf_of_sign_def)
  next
    case False
    define y where "y = sgn z * m / 2 ^ 1074"
    have abs_y: "\<bar>y * 2 ^ c\<bar> * 2 ^ 1074 = m * 2 ^ c"
      using m_pos z_nz by (simp add: y_def abs_mult abs_sgn_eq)
    have "round_mag (m * 2 ^ c) = round_mag m * 2 ^ c"
      using m_ge by (rule round_mag_scale)
    also have "round_mag m = m"
      unfolding m_def by (rule round_mag_idem) (simp add: s_def)
    finally have mag_y: "round_mag (m * 2 ^ c) = m * 2 ^ c" .
    have sgn_y: "sgn (y * 2 ^ c) = sgn z" "0 < y * 2 ^ c \<longleftrightarrow> 0 < z"
      using m_pos z_nz by (simp_all add: y_def sgn_mult zero_less_mult_iff zero_less_divide_iff
          sgn_1_pos sgn_1_neg linorder_neq_iff)
    have "fmul (round64 z) (Finite (2 ^ c)) = round64 (y * 2 ^ c)"
      using False unfolding lhs by (simp add: y_def)
    also have "\<dots> =
      (if 2 ^ 2098 \<le> m * 2 ^ c then (if 0 < z then PosInf else NegInf)
       else Finite (sgn z * (m * 2 ^ c) / 2 ^ 1074))"
      unfolding round64_def Let_def abs_y mag_y sgn_y ..
    finally show ?thesis unfolding rhs .
  qed
qed

text \<open>Multiplying a \<open>float64\<close> by a power of two is exact unless it overflows.\<close>

lemma round64_power2_times:
  assumes "is_float64 r"
  shows "round64 (2 ^ c * r) =
     (if 2 ^ 1024 \<le> \<bar>2 ^ c * r\<bar> then (if 0 < r then PosInf else NegInf) else Finite (2 ^ c * r))"
proof -
  from assms obtain n j :: nat where "\<bar>r\<bar> * 2 ^ 1074 = of_nat n * 2 ^ j" and n: "n < 2 ^ 53"
    unfolding is_float64_def by blast
  then have "\<bar>2 ^ c * r\<bar> * 2 ^ 1074 = of_nat n * 2 ^ (j + c)"
    by (simp add: abs_mult power_add)
  from round64_significand [OF this n] show ?thesis
    by (simp add: zero_less_mult_iff)
qed

text \<open>Halving a \<open>float64\<close> of magnitude at least \<open>2\<^sup>-\<^sup>1\<^sup>0\<^sup>2\<^sup>1\<close> is exact.\<close>

lemma round64_half:
  assumes "is_float64 d" and "1 / 2 ^ 1021 \<le> \<bar>d\<bar>"
  shows "round64 (d / 2) = Finite (d / 2)"
proof -
  from assms(1) obtain n j :: nat where s: "\<bar>d\<bar> * 2 ^ 1074 = of_nat n * 2 ^ j"
    and n: "n < 2 ^ 53" and fin: "\<bar>d\<bar> < 2 ^ 1024"
    unfolding is_float64_def by blast
  have "(2::rat) ^ 1074 = 2 ^ 53 * 2 ^ 1021" by (simp flip: power_add)
  then have "(2::rat) ^ 53 = 1 / 2 ^ 1021 * 2 ^ 1074" by simp
  also have "\<dots> \<le> \<bar>d\<bar> * 2 ^ 1074" using assms(2) by (intro mult_right_mono) simp_all
  finally have big: "2 ^ 53 \<le> of_nat n * (2::rat) ^ j" unfolding s .
  have "j \<noteq> 0"
  proof
    assume "j = 0"
    with big have "(2::rat) ^ 53 \<le> of_nat n" by simp
    then have "(of_nat (2 ^ 53) :: rat) \<le> of_nat n" by simp
    then have "2 ^ 53 \<le> n" by (simp only: of_nat_le_iff)
    with n show False by simp
  qed
  then obtain i where j: "j = Suc i" by (cases j) auto
  have "\<bar>d / 2\<bar> * 2 ^ 1074 = (\<bar>d\<bar> * 2 ^ 1074) / 2" by simp
  also have "\<dots> = of_nat n * 2 ^ i" unfolding s j by simp
  finally have "\<bar>d / 2\<bar> * 2 ^ 1074 = of_nat n * 2 ^ i" .
  moreover from fin have "\<bar>d / 2\<bar> < 2 ^ 1024" by simp
  ultimately have "is_float64 (d / 2)" unfolding is_float64_def using n by blast
  then show ?thesis by (rule round64_exact)
qed

text \<open>Rounding in the subnormal range: to a multiple of \<open>2\<^sup>-\<^sup>1\<^sup>0\<^sup>7\<^sup>4\<close>.\<close>

lemma round64_subnormal:
  assumes "0 \<le> x" and "x < 2 ^ 53"
  shows "round64 (x / 2 ^ 1074) = Finite (of_int (round_half_even x) / 2 ^ 1074)"
proof -
  have mag_arg: "\<bar>x / 2 ^ 1074\<bar> * 2 ^ 1074 = x" using assms(1) by simp
  have "bit_length \<lfloor>x\<rfloor> - 53 \<le> 0" using assms(2) by (simp only: shift_le_iff) simp
  then have mag: "round_mag x = of_int (round_half_even x)"
    by (simp add: round_mag_unfold)
  from assms(2) have "\<lfloor>x\<rfloor> < 2 ^ 53" by (simp add: floor_less_iff)
  with round_half_even_le_floor [of x] have "round_half_even x \<le> 2 ^ 53" by linarith
  then have "(of_int (round_half_even x) :: rat) \<le> of_int (2 ^ 53)" by (simp only: of_int_le_iff)
  then have "(of_int (round_half_even x) :: rat) \<le> 2 ^ 53" by simp
  also have "(2::rat) ^ 53 < 2 ^ 2098" by (rule power_strict_increasing) simp_all
  finally have small: "\<not> 2 ^ 2098 \<le> (of_int (round_half_even x) :: rat)" by (simp add: not_le)
  from assms(1) have "0 \<le> \<lfloor>x\<rfloor>" by simp
  with round_half_even_ge_floor [of x] have nonneg: "0 \<le> round_half_even x" by linarith
  have "sgn (x / 2 ^ 1074) * of_int (round_half_even x) = (of_int (round_half_even x) :: rat)"
  proof (cases "x = 0")
    case True
    then show ?thesis by (simp add: round_half_even_def)
  next
    case False
    with assms(1) have "0 < x / 2 ^ 1074" by simp
    then have "sgn (x / 2 ^ 1074) = 1" by (rule sgn_1_pos [THEN iffD2])
    then show ?thesis by simp
  qed
  then show ?thesis
    unfolding round64_def Let_def mag_arg mag using small by simp
qed

subsection \<open>The loops\<close>

text \<open>
  The selection loop, started from a driver whose rate is the current lowest: the
  result is that driver or one of the list, and no rate in the list is below its rate.
\<close>

lemma lowest_loop_acc:
  assumes "list_all (\<lambda>kd. is_finite (Rate (snd kd))) drivers" and "is_finite (Rate d)"
  shows "snd (lowest_loop drivers (Rate d, d)) \<in> insert d (snd ` set drivers)
       \<and> fle (Rate (snd (lowest_loop drivers (Rate d, d)))) (Rate d)
       \<and> list_all (\<lambda>kd. fle (Rate (snd (lowest_loop drivers (Rate d, d)))) (Rate (snd kd))) drivers"
  using assms
proof (induction drivers arbitrary: d)
  case Nil
  then show ?case by (simp add: fle_Finite_refl)
next
  case (Cons kd rest)
  obtain key cur where kd: "kd = (key, cur)" by (cases kd)
  from Cons.prems have fin_cur: "is_finite (Rate cur)" and fin_rest:
    "list_all (\<lambda>kd. is_finite (Rate (snd kd))) rest" by (simp_all add: kd)
  show ?case
  proof (cases "flt (Rate cur) (Rate d)")
    case True
    let ?r = "snd (lowest_loop rest (Rate cur, cur))"
    from Cons.IH [OF fin_rest fin_cur]
    have ih: "?r \<in> insert cur (snd ` set rest)" "fle (Rate ?r) (Rate cur)"
      "list_all (\<lambda>kd. fle (Rate ?r) (Rate (snd kd))) rest" by simp_all
    have "fle (Rate ?r) (Rate d)"
      using ih(2) flt_fle [OF True] by (rule fle_trans)
    with ih True show ?thesis by (auto simp: kd)
  next
    case False
    let ?r = "snd (lowest_loop rest (Rate d, d))"
    from Cons.IH [OF fin_rest Cons.prems(2)]
    have ih: "?r \<in> insert d (snd ` set rest)" "fle (Rate ?r) (Rate d)"
      "list_all (\<lambda>kd. fle (Rate ?r) (Rate (snd kd))) rest" by simp_all
    have "fle (Rate d) (Rate cur)"
      using fin_cur Cons.prems(2) False by (rule not_flt_fle)
    with ih(2) have "fle (Rate ?r) (Rate cur)" by (rule fle_trans)
    with ih False show ?thesis by (auto simp: kd)
  qed
qed

text \<open>
  Started from \<open>+Inf\<close>, the loop takes the first driver of a decoded roster, since
  every finite rate is below \<open>+Inf\<close>.
\<close>

lemma lowest_loop_start:
  assumes "list_all (\<lambda>kd. is_finite (Rate (snd kd))) drivers" and "drivers \<noteq> []"
  shows "snd (lowest_loop drivers (PosInf, d0)) \<in> snd ` set drivers
       \<and> list_all (\<lambda>kd. fle (Rate (snd (lowest_loop drivers (PosInf, d0)))) (Rate (snd kd))) drivers"
proof -
  from assms(2) obtain key cur rest where d: "drivers = (key, cur) # rest"
    by (cases drivers) auto
  from assms(1) have fin_cur: "is_finite (Rate cur)" and fin_rest:
    "list_all (\<lambda>kd. is_finite (Rate (snd kd))) rest" by (simp_all add: d)
  from fin_cur have "flt (Rate cur) PosInf" by (cases "Rate cur") simp_all
  then have step: "lowest_loop drivers (PosInf, d0) = lowest_loop rest (Rate cur, cur)"
    by (simp add: d)
  from lowest_loop_acc [OF fin_rest fin_cur] show ?thesis
    unfolding step by (auto simp: d)
qed

text \<open>
  The loop over the steps never returns early: it adds, in order, the distances of the
  steps whose instruction matches.
\<close>

lemma aRoadTotal_loop_foldl:
  "aRoadTotal_loop steps acc =
     Inr (foldl fadd acc (map step_Distance_Value
            (filter (\<lambda>step. has_A_digits (Html_instructions step)) steps)))"
  by (induction steps arbitrary: acc) (simp_all add: regexp_Match_A_digits_def)

lemma has_A_digits_split:
  "has_A_digits s \<Longrightarrow> \<exists>pre d post. s = pre @ CHR ''A'' # d # post \<and> is_digit d"
proof (induction s rule: has_A_digits.induct)
  case (3 c d rest)
  show ?case
  proof (cases "c = CHR ''A'' \<and> is_digit d")
    case True
    then have "c # d # rest = [] @ CHR ''A'' # d # rest \<and> is_digit d" by simp
    then show ?thesis by blast
  next
    case False
    with 3 obtain pre d' post where "d # rest = pre @ CHR ''A'' # d' # post" "is_digit d'"
      by auto
    then have "c # d # rest = (c # pre) @ CHR ''A'' # d' # post \<and> is_digit d'" by simp
    then show ?thesis by blast
  qed
qed simp_all

lemma has_A_digits_append:
  "is_digit d \<Longrightarrow> has_A_digits (pre @ CHR ''A'' # d # post)"
proof (induction pre)
  case Nil
  then show ?case by simp
next
  case (Cons p ps)
  then show ?case by (cases ps) simp_all
qed

lemma has_A_digits_iff: "has_A_digits s \<longleftrightarrow> contains_A_number s"
proof
  assume "has_A_digits s"
  then obtain pre d post where "s = pre @ CHR ''A'' # d # post" "is_digit d"
    using has_A_digits_split by blast
  then have "s = pre @ CHR ''A'' # [d] @ post \<and> [d] \<noteq> [] \<and> list_all is_digit [d]"
    by simp
  then show "contains_A_number s" unfolding contains_A_number_def by blast
next
  assume "contains_A_number s"
  then obtain pre digits post where s: "s = pre @ CHR ''A'' # digits @ post"
    and ne: "digits \<noteq> []" and dig: "list_all is_digit digits"
    unfolding contains_A_number_def by blast
  from ne obtain d ds where "digits = d # ds" by (cases digits) auto
  with s dig have "s = pre @ CHR ''A'' # d # (ds @ post)" "is_digit d" by simp_all
  then show "has_A_digits s" by (simp add: has_A_digits_append)
qed

subsection \<open>The multiplier and the price\<close>

lemma surge_values:
  "surge road scarce night =
     Finite ((if road then 2 else 1) * (if scarce then 2 else 1) * (if night then 2 else 1))"
  by (cases road; cases scarce; cases night) (simp_all add: surge_def)

lemma multiplier_of_power2:
  "\<exists>c. multiplier_of aRoadTotal legDistance numDrivers hour = Finite (2 ^ c)"
proof -
  have "surge road scarce night =
      Finite (2 ^ ((if road then 1 else 0) + (if scarce then 1 else 0) + (if night then 1 else 0)))"
    for road scarce night
    by (cases road; cases scarce; cases night) (simp_all add: surge_values)
  then show ?thesis unfolding multiplier_of_def by blast
qed

text \<open>
  The two orders of the products in the cost agree when the rate times the multiplier
  does not overflow and the distance times the rate is zero or not subnormal.
\<close>

lemma fmul_reassociate:
  assumes rate: "is_float64 r"
    and finite: "is_finite (fmul (Finite (2 ^ c)) (Finite r))"
    and normal: "x * r = 0 \<or> 1 / 2 ^ 1022 \<le> \<bar>x * r\<bar>"
  shows "fmul (fmul (Finite x) (Finite r)) (Finite (2 ^ c))
       = fmul (Finite x) (fmul (Finite (2 ^ c)) (Finite r))"
proof -
  have product: "fmul (Finite (2 ^ c)) (Finite r) =
      (if 2 ^ 1024 \<le> \<bar>2 ^ c * r\<bar> then (if 0 < r then PosInf else NegInf)
       else Finite (2 ^ c * r))"
    by (simp only: fmul.simps round64_power2_times [OF rate])
  have "fmul (Finite (2 ^ c)) (Finite r) = Finite (2 ^ c * r)"
  proof (cases "2 ^ 1024 \<le> \<bar>2 ^ c * r\<bar>")
    case True
    with product have "fmul (Finite (2 ^ c)) (Finite r) = (if 0 < r then PosInf else NegInf)"
      by (simp only: if_True)
    with finite show ?thesis by (cases "0 < r") simp_all
  next
    case False
    with product show ?thesis by (simp only: if_False)
  qed
  then have right: "fmul (Finite x) (fmul (Finite (2 ^ c)) (Finite r)) = round64 (x * r * 2 ^ c)"
    by (simp add: mult_ac)
  from normal show ?thesis
  proof
    assume zero: "x * r = 0"
    show ?thesis
      unfolding right by (simp only: fmul.simps zero round64_0 mult_zero_left)
  next
    assume "1 / 2 ^ 1022 \<le> \<bar>x * r\<bar>"
    then have "fmul (round64 (x * r)) (Finite (2 ^ c)) = round64 (x * r * 2 ^ c)"
      by (rule round64_scale)
    then show ?thesis unfolding right by (simp only: fmul.simps)
  qed
qed

lemma price_first_leg:
  "Routes directions = route # other_routes \<Longrightarrow> Legs route = leg # other_legs \<Longrightarrow>
   aRoadTotal_loop (Steps leg) (Finite 0) = Inr aRoadTotal \<Longrightarrow>
   price directions driver numDrivers hour =
     (fmul (fmul (fdiv (leg_Distance_Value leg) (Finite 1000)) (Rate driver))
           (multiplier_of aRoadTotal (leg_Distance_Value leg) numDrivers hour),
      fmul (multiplier_of aRoadTotal (leg_Distance_Value leg) numDrivers hour) (Rate driver),
      None)"
  by (simp add: price_def Let_def)

section \<open>The claims\<close>

subsection \<open>Driver selection\<close>

text \<open>
  Claim C1. For every roster that decodes, \<open>FindBestDriver\<close> returns no error and the
  size of the roster as the count. When the roster is not empty the driver it returns is
  one of the roster and its rate is less than or equal to the rate of every driver of
  the roster. For the empty roster it returns the zero driver, still without an error,
  and the handler answers with status 200 and the text that no drivers are available;
  the only outbound call is the one to the drivers service.
\<close>

theorem C1_FindBestDriver_lowest_rate:
  assumes "drivers_service e = Drivers_Decoded drivers" and "decoded_roster drivers"
  shows "\<exists>best. FindBestDriver e = ((best, int (length drivers), None), [Drivers_request])
           \<and> (drivers \<noteq> [] \<longrightarrow>
                 best \<in> snd ` set drivers \<and> (\<forall>d \<in> snd ` set drivers. fle (Rate best) (Rate d)))
           \<and> (drivers = [] \<longrightarrow>
                 best = zero_Driver
                 \<and> RiderRequest e (Inr journey) =
                     (\<lparr>status = 200, content = Text ''No drivers available at this time.''\<rparr>,
                      [Drivers_request]))"
proof -
  let ?best = "snd (lowest_loop drivers (PosInf, zero_Driver))"
  have run: "FindBestDriver e = ((?best, int (length drivers), None), [Drivers_request])"
    by (simp add: FindBestDriver_def assms(1))
  have nonempty: "?best \<in> snd ` set drivers \<and> (\<forall>d \<in> snd ` set drivers. fle (Rate ?best) (Rate d))"
    if "drivers \<noteq> []"
    using lowest_loop_start [OF assms(2) [unfolded decoded_roster_def] that, of zero_Driver]
    by (auto simp: list_all_iff)
  have empty: "?best = zero_Driver
      \<and> RiderRequest e (Inr journey) =
          (\<lparr>status = 200, content = Text ''No drivers available at this time.''\<rparr>,
           [Drivers_request])"
    if "drivers = []"
    using that by (simp add: RiderRequest_def run zero_Driver_def)
  from run nonempty empty show ?thesis by blast
qed

text \<open>
  The roster of the worked example: Bob, with rate 7, is selected and the count is 3.
  The empty roster gives the no-driver answer.
\<close>

theorem C1_FindBestDriver_lowest_rate_witness:
  "decoded_roster example_roster
   \<and> fst (FindBestDriver (service_env (Drivers_Decoded example_roster) Directions_Do_failed 14))
       = (\<lparr>Name = ''Bob'', Rate = Finite 7\<rparr>, 3, None)
   \<and> decoded_roster []
   \<and> RiderRequest (service_env (Drivers_Decoded []) Directions_Do_failed 14) (Inr example_journey)
       = (\<lparr>status = 200, content = Text ''No drivers available at this time.''\<rparr>, [Drivers_request])"
proof -
  have d1: "decoded_roster example_roster" by (simp add: decoded_roster_def example_roster_def)
  have d2: "decoded_roster []" by (simp add: decoded_roster_def)
  have s1: "drivers_service (service_env (Drivers_Decoded example_roster) Directions_Do_failed 14)
              = Drivers_Decoded example_roster" by (simp add: service_env_def)
  have s2: "drivers_service (service_env (Drivers_Decoded []) Directions_Do_failed 14)
              = Drivers_Decoded []" by (simp add: service_env_def)
  from C1_FindBestDriver_lowest_rate [OF s1 d1, of example_journey]
  obtain best where b: "FindBestDriver (service_env (Drivers_Decoded example_roster) Directions_Do_failed 14)
      = ((best, int (length example_roster), None), [Drivers_request])"
     "best \<in> snd ` set example_roster" "\<forall>d \<in> snd ` set example_roster. fle (Rate best) (Rate d)"
    by (auto simp: example_roster_def)
  from b(2,3) have "best = \<lparr>Name = ''Bob'', Rate = Finite 7\<rparr>"
    by (auto simp: example_roster_def)
  with b(1) have r1: "fst (FindBestDriver (service_env (Drivers_Decoded example_roster) Directions_Do_failed 14))
       = (\<lparr>Name = ''Bob'', Rate = Finite 7\<rparr>, 3, None)" by (simp add: example_roster_def)
  from C1_FindBestDriver_lowest_rate [OF s2 d2, of example_journey]
  have r2: "RiderRequest (service_env (Drivers_Decoded []) Directions_Do_failed 14) (Inr example_journey)
       = (\<lparr>status = 200, content = Text ''No drivers available at this time.''\<rparr>, [Drivers_request])"
    by auto
  from d1 d2 r1 r2 show ?thesis by simp
qed

subsection \<open>The price\<close>

text \<open>
  Claim C2, amended. When the decoded directions have a first route with a first leg,
  \<open>CalculateCost\<close> returns no error, the final rate is the \<open>float64\<close> product of the
  multiplier and the driver's rate, and the cost is the \<open>float64\<close> product of the leg's
  distance divided by 1000, the rate and the multiplier, taken in that order. The cost
  equals the distance divided by 1000, times the final rate, whenever the distance
  divided by 1000 is finite, the rate is a value of the format, the final rate is
  finite, and the product of the distance divided by 1000 and the rate is zero or of
  magnitude at least \<open>2\<^sup>-\<^sup>1\<^sup>0\<^sup>2\<^sup>2\<close>. In the worked example (6000 m of 10000 m on major
  roads, 3 drivers, hour 14) the multiplier is 4, the final rate for a base rate of 7 is
  28 and the cost is 280.
\<close>

theorem C2_cost_formula:
  "(directions_service e journey = Directions_Decoded directions \<longrightarrow>
    Routes directions = route # other_routes \<longrightarrow> Legs route = leg # other_legs \<longrightarrow>
      (\<exists>aRoadTotal multiplier.
          aRoadTotal_loop (Steps leg) (Finite 0) = Inr aRoadTotal
        \<and> multiplier = multiplier_of aRoadTotal (leg_Distance_Value leg) numDrivers (clock_hour e)
        \<and> fst (CalculateCost e journey driver numDrivers) =
            (fmul (fmul (fdiv (leg_Distance_Value leg) (Finite 1000)) (Rate driver)) multiplier,
             fmul multiplier (Rate driver),
             None)
        \<and> (fdiv (leg_Distance_Value leg) (Finite 1000) = Finite km \<longrightarrow>
            Rate driver = Finite rate \<longrightarrow> is_float64 rate \<longrightarrow>
            is_finite (fmul multiplier (Rate driver)) \<longrightarrow>
            (km * rate = 0 \<or> 1 / 2 ^ 1022 \<le> \<bar>km * rate\<bar>) \<longrightarrow>
              fst (fst (CalculateCost e journey driver numDrivers)) =
                fmul (fdiv (leg_Distance_Value leg) (Finite 1000))
                     (fmul multiplier (Rate driver)))))
   \<and> multiplier_of (Finite 6000) (Finite 10000) 3 14 = Finite 4
   \<and> fmul (Finite 4) (Finite 7) = Finite 28
   \<and> fmul (fdiv (Finite 10000) (Finite 1000)) (Finite 28) = Finite 280"
proof (intro conjI impI)
  assume svc: "directions_service e journey = Directions_Decoded directions"
    and routes: "Routes directions = route # other_routes"
    and legs: "Legs route = leg # other_legs"
  obtain aRoadTotal where a: "aRoadTotal_loop (Steps leg) (Finite 0) = Inr aRoadTotal"
    by (simp add: aRoadTotal_loop_foldl)
  let ?m = "multiplier_of aRoadTotal (leg_Distance_Value leg) numDrivers (clock_hour e)"
  let ?km = "fdiv (leg_Distance_Value leg) (Finite 1000)"
  obtain c where c: "?m = Finite (2 ^ c)"
    using multiplier_of_power2 by blast
  have "fst (CalculateCost e journey driver numDrivers)
          = price directions driver numDrivers (clock_hour e)"
    by (simp add: CalculateCost_def svc)
  also have "\<dots> = (fmul (fmul ?km (Rate driver)) ?m, fmul ?m (Rate driver), None)"
    using routes legs a by (rule price_first_leg)
  finally have result: "fst (CalculateCost e journey driver numDrivers)
      = (fmul (fmul ?km (Rate driver)) ?m, fmul ?m (Rate driver), None)" .
  have orders: "fst (fst (CalculateCost e journey driver numDrivers))
      = fmul ?km (fmul ?m (Rate driver))"
    if "?km = Finite km" "Rate driver = Finite rate" "is_float64 rate"
      "is_finite (fmul ?m (Rate driver))" "km * rate = 0 \<or> 1 / 2 ^ 1022 \<le> \<bar>km * rate\<bar>"
    using that fmul_reassociate [of rate c km]
    unfolding result c by simp
  from a result orders show "\<exists>aRoadTotal multiplier.
          aRoadTotal_loop (Steps leg) (Finite 0) = Inr aRoadTotal
        \<and> multiplier = multiplier_of aRoadTotal (leg_Distance_Value leg) numDrivers (clock_hour e)
        \<and> fst (CalculateCost e journey driver numDrivers) =
            (fmul (fmul (fdiv (leg_Distance_Value leg) (Finite 1000)) (Rate driver)) multiplier,
             fmul multiplier (Rate driver),
             None)
        \<and> (fdiv (leg_Distance_Value leg) (Finite 1000) = Finite km \<longrightarrow>
            Rate driver = Finite rate \<longrightarrow> is_float64 rate \<longrightarrow>
            is_finite (fmul multiplier (Rate driver)) \<longrightarrow>
            (km * rate = 0 \<or> 1 / 2 ^ 1022 \<le> \<bar>km * rate\<bar>) \<longrightarrow>
              fst (fst (CalculateCost e journey driver numDrivers)) =
                fmul (fdiv (leg_Distance_Value leg) (Finite 1000))
                     (fmul multiplier (Rate driver)))"
    by blast
next
  show "multiplier_of (Finite 6000) (Finite 10000) 3 14 = Finite 4"
    by (simp add: multiplier_of_def surge_values fgt_def)
qed simp_all

text \<open>
  The worked example run through the handler: the answer is status 200 with final rate
  28 and cost 280, after one call to each service. The conditions under which the two
  orders of the products agree hold there.
\<close>

theorem C2_cost_formula_witness:
  "RiderRequest
     (service_env (Drivers_Decoded example_roster) (Directions_Decoded example_directions) 14)
     (Inr example_journey)
     = (\<lparr>status = 200, content = Json \<lparr>FinalRate = Finite 28, Cost = Finite 280\<rparr>\<rparr>,
        [Drivers_request, Call_CalculateCost, Directions_request example_journey])
   \<and> fst (CalculateCost
        (service_env (Drivers_Decoded example_roster) (Directions_Decoded example_directions) 14)
        example_journey \<lparr>Name = ''Bob'', Rate = Finite 7\<rparr> 3)
     = (Finite 280, Finite 28, None)
   \<and> is_float64 7
   \<and> fst (fst (CalculateCost
        (service_env (Drivers_Decoded example_roster) (Directions_Decoded example_directions) 14)
        example_journey \<lparr>Name = ''Bob'', Rate = Finite 7\<rparr> 3))
     = fmul (fdiv (Finite 10000) (Finite 1000)) (fmul (Finite 4) (Finite 7))"
proof -
  let ?e = "service_env (Drivers_Decoded example_roster) (Directions_Decoded example_directions) 14"
  let ?bob = "\<lparr>Name = ''Bob'', Rate = Finite 7\<rparr>"
  have major: "aRoadTotal_loop (Steps example_leg) (Finite 0) = Inr (Finite 6000)"
    by (simp add: example_leg_def regexp_Match_A_digits_def is_digit_def)
  have svc: "directions_service ?e example_journey = Directions_Decoded example_directions"
    by (simp add: service_env_def)
  have hour: "clock_hour ?e = 14" by (simp add: service_env_def)
  have dist: "leg_Distance_Value example_leg = Finite 10000" by (simp add: example_leg_def)
  have seven: "is_float64 7" by (rule is_float64_numeral) simp
  note general = C2_cost_formula [where e = ?e and journey = example_journey
      and directions = example_directions and route = "\<lparr>Legs = [example_leg]\<rparr>"
      and other_routes = "[]" and leg = example_leg and other_legs = "[]"
      and driver = ?bob and numDrivers = 3 and km = 10 and rate = 7]
  from general svc
  have cost: "fst (CalculateCost ?e example_journey ?bob 3) = (Finite 280, Finite 28, None)"
    unfolding hour major dist by (simp add: example_directions_def)
  from general svc seven
  have orders: "fst (fst (CalculateCost ?e example_journey ?bob 3))
      = fmul (fdiv (Finite 10000) (Finite 1000)) (fmul (Finite 4) (Finite 7))"
    unfolding hour major dist by (simp add: example_directions_def)
  have calls: "snd (CalculateCost ?e example_journey ?bob 3) = [Directions_request example_journey]"
    by (simp add: CalculateCost_def service_env_def)
  have best: "FindBestDriver ?e = ((?bob, 3, None), [Drivers_request])"
    by (simp add: FindBestDriver_def service_env_def example_roster_def)
  from cost calls have "CalculateCost ?e example_journey ?bob 3
      = ((Finite 280, Finite 28, None), [Directions_request example_journey])"
    by (simp add: prod_eq_iff)
  with best have "RiderRequest ?e (Inr example_journey)
     = (\<lparr>status = 200, content = Json \<lparr>FinalRate = Finite 28, Cost = Finite 280\<rparr>\<rparr>,
        [Drivers_request, Call_CalculateCost, Directions_request example_journey])"
    by (simp add: RiderRequest_def json_Marshal_Response_def)
  with cost seven orders show ?thesis by simp
qed

text \<open>
  Claim C2 as stated makes the cost the distance divided by 1000, times the final rate.
  For a leg of 500 m, a driver whose rate is \<open>2\<^sup>1\<^sup>0\<^sup>2\<^sup>3\<close> and 3 drivers at hour 14, the
  multiplier is 2: the final rate overflows to \<open>+Inf\<close>, while the cost, multiplied in
  the program's order, is the finite \<open>2\<^sup>1\<^sup>0\<^sup>2\<^sup>3\<close>; the distance divided by 1000, times the
  final rate, is \<open>+Inf\<close>.
\<close>

theorem C2_cost_formula_counterexample:
  "is_float64 (2 ^ 1023)
   \<and> fst (CalculateCost
        (service_env (Drivers_Decoded example_roster)
           (Directions_Decoded \<lparr>Routes = [\<lparr>Legs = [half_km_leg]\<rparr>]\<rparr>) 14)
        example_journey \<lparr>Name = ''Bob'', Rate = Finite (2 ^ 1023)\<rparr> 3)
     = (Finite (2 ^ 1023), PosInf, None)
   \<and> fmul (fdiv (leg_Distance_Value half_km_leg) (Finite 1000)) PosInf = PosInf"
proof -
  let ?e = "service_env (Drivers_Decoded example_roster)
              (Directions_Decoded \<lparr>Routes = [\<lparr>Legs = [half_km_leg]\<rparr>]\<rparr>) 14"
  let ?bob = "\<lparr>Name = ''Bob'', Rate = Finite (2 ^ 1023)\<rparr>"
  have rate: "is_float64 (2 ^ 1023)" by (rule is_float64_power2) simp
  have "round64 (1 / 2) = Finite (1 / 2)"
    by (rule round64_half) (simp_all add: is_float64_of_int [of 1, simplified])
  then have km: "fdiv (Finite 500) (Finite 1000) = Finite (1 / 2)" by simp
  have "(1 / 2) * (2::rat) ^ 1023 = 2 ^ 1022" by simp
  moreover have "round64 (2 ^ 1022) = Finite (2 ^ 1022)"
    by (rule round64_exact, rule is_float64_power2) simp
  ultimately have fare: "fmul (Finite (1 / 2)) (Finite (2 ^ 1023)) = Finite (2 ^ 1022)"
    by (simp only: fmul.simps)
  have "(2::rat) ^ 1022 * 2 = 2 ^ 1023" by simp
  moreover have "round64 (2 ^ 1023) = Finite (2 ^ 1023)"
    using rate by (rule round64_exact)
  ultimately have cost: "fmul (Finite (2 ^ 1022)) (Finite 2) = Finite (2 ^ 1023)"
    by (simp only: fmul.simps)
  have "\<bar>(2::rat) ^ 1024\<bar> * 2 ^ 1074 = of_nat 1 * 2 ^ 2098" by (simp flip: power_add)
  from round64_significand [OF this] have "round64 (2 ^ 1024) = PosInf" by simp
  moreover have "2 * (2::rat) ^ 1023 = 2 ^ 1024" by simp
  ultimately have final: "fmul (Finite 2) (Finite (2 ^ 1023)) = PosInf"
    by (simp only: fmul.simps)
  have "round64 250 = Finite 250" by simp
  then have mult: "multiplier_of (Finite 0) (Finite 500) 3 14 = Finite 2"
    by (simp add: multiplier_of_def surge_values fgt_def)
  have "fst (CalculateCost ?e example_journey ?bob 3)
      = (fmul (fmul (fdiv (Finite 500) (Finite 1000)) (Finite (2 ^ 1023))) (Finite 2),
         fmul (Finite 2) (Finite (2 ^ 1023)), None)"
    by (simp only: CalculateCost_def price_def service_env_def half_km_leg_def Let_def mult
          env.simps Directions.simps Route.simps Leg.simps Driver.simps
          directions_outcome.case list.case aRoadTotal_loop.simps sum.case fst_conv)
  then have run: "fst (CalculateCost ?e example_journey ?bob 3) = (Finite (2 ^ 1023), PosInf, None)"
    by (simp only: km fare cost final)
  have "fmul (fdiv (leg_Distance_Value half_km_leg) (Finite 1000)) PosInf = PosInf"
    by (simp add: half_km_leg_def km inf_of_sign_def del: fdiv.simps)
  with rate run show ?thesis by (simp only: simp_thms)
qed

text \<open>
  Claim C3. The multiplier is always one of 1, 2, 4 and 8, each of which occurs, and
  turning any one of the three conditions from false to true, with the other two
  unchanged, never lowers it. Whenever \<open>CalculateCost\<close> returns no error, the final
  rate it returns is the driver's rate times one of these four values.
\<close>

theorem C3_multiplier_in_1_2_4_8:
  "multiplier_of aRoadTotal legDistance numDrivers hour \<in> {Finite 1, Finite 2, Finite 4, Finite 8}
   \<and> surge road scarce night \<in> {Finite 1, Finite 2, Finite 4, Finite 8}
   \<and> fle (surge False scarce night) (surge True scarce night)
   \<and> fle (surge road False night) (surge road True night)
   \<and> fle (surge road scarce False) (surge road scarce True)
   \<and> surge False False False = Finite 1
   \<and> surge True False False = Finite 2
   \<and> surge True True False = Finite 4
   \<and> surge True True True = Finite 8
   \<and> (snd (snd (fst (CalculateCost e journey driver numDrivers))) = None \<longrightarrow>
        (\<exists>multiplier. multiplier \<in> {Finite 1, Finite 2, Finite 4, Finite 8}
           \<and> fst (snd (fst (CalculateCost e journey driver numDrivers)))
               = fmul multiplier (Rate driver)))"
proof -
  have in_set: "surge road scarce night \<in> {Finite 1, Finite 2, Finite 4, Finite 8}"
    for road scarce night
    by (cases road; cases scarce; cases night) (simp_all add: surge_def)
  then have of_inputs:
    "multiplier_of aRoadTotal legDistance numDrivers hour \<in> {Finite 1, Finite 2, Finite 4, Finite 8}"
    for aRoadTotal legDistance numDrivers hour
    unfolding multiplier_of_def .
  have monotone: "fle (surge False scarce night) (surge True scarce night)"
    "fle (surge road False night) (surge road True night)"
    "fle (surge road scarce False) (surge road scarce True)"
    by (simp_all add: surge_values)
  have attained: "surge False False False = Finite 1" "surge True False False = Finite 2"
    "surge True True False = Finite 4" "surge True True True = Finite 8"
    by (simp_all add: surge_def)
  have in_cost: "\<exists>multiplier. multiplier \<in> {Finite 1, Finite 2, Finite 4, Finite 8}
           \<and> fst (snd (fst (CalculateCost e journey driver numDrivers)))
               = fmul multiplier (Rate driver)"
    if ok: "snd (snd (fst (CalculateCost e journey driver numDrivers))) = None"
  proof -
    from ok obtain directions where svc: "directions_service e journey = Directions_Decoded directions"
      by (cases "directions_service e journey") (simp_all add: CalculateCost_def)
    with ok obtain route other_routes where routes: "Routes directions = route # other_routes"
      by (cases "Routes directions") (simp_all add: CalculateCost_def price_def)
    with ok svc obtain leg other_legs where legs: "Legs route = leg # other_legs"
      by (cases "Legs route") (simp_all add: CalculateCost_def price_def)
    obtain total where total: "aRoadTotal_loop (Steps leg) (Finite 0) = Inr total"
      by (simp add: aRoadTotal_loop_foldl)
    have "fst (snd (fst (CalculateCost e journey driver numDrivers)))
        = fmul (multiplier_of total (leg_Distance_Value leg) numDrivers (clock_hour e)) (Rate driver)"
      by (simp add: CalculateCost_def svc price_first_leg [OF routes legs total])
    with of_inputs show ?thesis by blast
  qed
  from in_set of_inputs monotone attained in_cost show ?thesis by blast
qed

text \<open>
  The worked example returns no error, and its final rate is such a multiple of 7.
\<close>

theorem C3_multiplier_in_1_2_4_8_witness:
  "snd (snd (fst (CalculateCost
        (service_env (Drivers_Decoded example_roster) (Directions_Decoded example_directions) 14)
        example_journey \<lparr>Name = ''Bob'', Rate = Finite 7\<rparr> 3))) = None
   \<and> (\<exists>multiplier. multiplier \<in> {Finite 1, Finite 2, Finite 4, Finite 8}
        \<and> fst (snd (fst (CalculateCost
             (service_env (Drivers_Decoded example_roster)
                (Directions_Decoded example_directions) 14)
             example_journey \<lparr>Name = ''Bob'', Rate = Finite 7\<rparr> 3)))
            = fmul multiplier (Finite 7))"
proof -
  let ?e = "service_env (Drivers_Decoded example_roster) (Directions_Decoded example_directions) 14"
  let ?bob = "\<lparr>Name = ''Bob'', Rate = Finite 7\<rparr>"
  have ok: "snd (snd (fst (CalculateCost ?e example_journey ?bob 3))) = None"
    by (simp add: CalculateCost_def price_def service_env_def example_directions_def
          aRoadTotal_loop_foldl Let_def)
  with C3_multiplier_in_1_2_4_8 [where e = ?e and journey = example_journey and driver = ?bob
      and numDrivers = 3]
  show ?thesis by simp
qed

text \<open>
  Claim C4, amended. Each rule applies beyond its threshold only. The road rule tests
  whether the major-road total, the rounded running sum the program keeps, is greater
  than the leg's distance divided by 2 in \<open>float64\<close>. For a leg distance of the format
  that is at least \<open>2\<^sup>-\<^sup>1\<^sup>0\<^sup>2\<^sup>1\<close> the halving is exact: a major-road total of exactly one
  half of the distance leaves the multiplier as it is without the road rule, and a
  greater one doubles it. A count of 5 drivers leaves the multiplier as it is without
  the scarcity rule and a count of 4 doubles it. Hour 22 and hour 6 leave it as it is
  without the night rule; hour 23 and hour 5 double it.
\<close>

theorem C4_strict_thresholds:
  "(is_float64 d \<longrightarrow> 1 / 2 ^ 1021 \<le> d \<longrightarrow> a / d = 1 / 2 \<longrightarrow>
      multiplier_of (Finite a) (Finite d) n h = surge False (n < 5) (h > 22 \<or> h < 6))
   \<and> (is_float64 d \<longrightarrow> 1 / 2 ^ 1021 \<le> d \<longrightarrow> 1 / 2 < a / d \<longrightarrow>
      multiplier_of (Finite a) (Finite d) n h
        = fmul (surge False (n < 5) (h > 22 \<or> h < 6)) (Finite 2))
   \<and> multiplier_of x y 5 h = surge (fgt x (fdiv y (Finite 2))) False (h > 22 \<or> h < 6)
   \<and> multiplier_of x y 4 h
        = fmul (surge (fgt x (fdiv y (Finite 2))) False (h > 22 \<or> h < 6)) (Finite 2)
   \<and> multiplier_of x y n 22 = surge (fgt x (fdiv y (Finite 2))) (n < 5) False
   \<and> multiplier_of x y n 23 = fmul (surge (fgt x (fdiv y (Finite 2))) (n < 5) False) (Finite 2)
   \<and> multiplier_of x y n 6 = surge (fgt x (fdiv y (Finite 2))) (n < 5) False
   \<and> multiplier_of x y n 5 = fmul (surge (fgt x (fdiv y (Finite 2))) (n < 5) False) (Finite 2)"
proof -
  have half: "fgt (Finite a) (fdiv (Finite d) (Finite 2)) \<longleftrightarrow> 1 / 2 < a / d"
    if float: "is_float64 d" and large: "1 / 2 ^ 1021 \<le> d"
  proof -
    have "(0::rat) < 1 / 2 ^ 1021" by simp
    from this large have pos: "0 < d" by (rule less_le_trans)
    with large have "1 / 2 ^ 1021 \<le> \<bar>d\<bar>" by simp
    with float have "round64 (d / 2) = Finite (d / 2)" by (rule round64_half)
    then have "fgt (Finite a) (fdiv (Finite d) (Finite 2)) \<longleftrightarrow> d / 2 < a"
      by (simp add: fgt_def)
    also have "\<dots> \<longleftrightarrow> 1 / 2 < a / d" using pos by (simp add: field_simps)
    finally show ?thesis .
  qed
  have road_off: "multiplier_of (Finite a) (Finite d) n h = surge False (n < 5) (h > 22 \<or> h < 6)"
    if "is_float64 d" "1 / 2 ^ 1021 \<le> d" "a / d = 1 / 2"
    using half [OF that(1,2)] that(3) by (simp only: multiplier_of_def) simp
  have road_on: "multiplier_of (Finite a) (Finite d) n h
        = fmul (surge False (n < 5) (h > 22 \<or> h < 6)) (Finite 2)"
    if "is_float64 d" "1 / 2 ^ 1021 \<le> d" "1 / 2 < a / d"
    using half [OF that(1,2)] that(3) by (simp only: multiplier_of_def) (simp add: surge_values)
  have rest: "multiplier_of x y 5 h = surge (fgt x (fdiv y (Finite 2))) False (h > 22 \<or> h < 6)"
    "multiplier_of x y 4 h
        = fmul (surge (fgt x (fdiv y (Finite 2))) False (h > 22 \<or> h < 6)) (Finite 2)"
    "multiplier_of x y n 22 = surge (fgt x (fdiv y (Finite 2))) (n < 5) False"
    "multiplier_of x y n 23 = fmul (surge (fgt x (fdiv y (Finite 2))) (n < 5) False) (Finite 2)"
    "multiplier_of x y n 6 = surge (fgt x (fdiv y (Finite 2))) (n < 5) False"
    "multiplier_of x y n 5 = fmul (surge (fgt x (fdiv y (Finite 2))) (n < 5) False) (Finite 2)"
    by (simp_all add: multiplier_of_def surge_values)
  from road_off road_on rest show ?thesis by blast
qed

text \<open>The six boundary values on a leg of 10000 m, with the other rules off.\<close>

theorem C4_strict_thresholds_witness:
  "is_float64 10000
   \<and> multiplier_of (Finite 5000) (Finite 10000) 5 22 = Finite 1
   \<and> multiplier_of (Finite 5001) (Finite 10000) 5 22 = Finite 2
   \<and> multiplier_of (Finite 5000) (Finite 10000) 4 22 = Finite 2
   \<and> multiplier_of (Finite 5000) (Finite 10000) 5 23 = Finite 2
   \<and> multiplier_of (Finite 5000) (Finite 10000) 5 6 = Finite 1
   \<and> multiplier_of (Finite 5000) (Finite 10000) 5 5 = Finite 2"
proof -
  have float: "is_float64 10000" by (rule is_float64_numeral) simp
  have large: "1 / 2 ^ 1021 \<le> (10000::rat)"
  proof -
    have "1 / 2 ^ 1021 \<le> (1::rat)" by simp
    then show ?thesis by simp
  qed
  have a: "multiplier_of (Finite 5000) (Finite 10000) 5 22 = Finite 1"
    using C4_strict_thresholds [where d = 10000 and a = 5000 and n = 5 and h = 22
        and x = "Finite 5000" and y = "Finite 10000"] float large
    by (simp add: surge_values)
  have b: "multiplier_of (Finite 5001) (Finite 10000) 5 22 = Finite 2"
    using C4_strict_thresholds [where d = 10000 and a = 5001 and n = 5 and h = 22
        and x = "Finite 5001" and y = "Finite 10000"] float large
    by (simp add: surge_values)
  have c: "multiplier_of (Finite 5000) (Finite 10000) 4 22 = Finite 2"
    "multiplier_of (Finite 5000) (Finite 10000) 5 23 = Finite 2"
    "multiplier_of (Finite 5000) (Finite 10000) 5 6 = Finite 1"
    "multiplier_of (Finite 5000) (Finite 10000) 5 5 = Finite 2"
    using C4_strict_thresholds [where x = "Finite 5000" and y = "Finite 10000" and n = 5 and h = 22]
    by (simp_all add: surge_values fgt_def)
  from float a b c show ?thesis by simp
qed

text \<open>
  Claim C4 as stated doubles the multiplier for every major-road fraction above one
  half. On a leg of three units of \<open>2\<^sup>-\<^sup>1\<^sup>0\<^sup>7\<^sup>4\<close> m with two of them on the A30 the fraction
  is two thirds; half of the distance, one and a half units, rounds to two units, which
  the major-road total does not exceed. With 5 drivers at hour 14 the multiplier is 1
  and the final rate is the base rate 7.
\<close>

theorem C4_strict_thresholds_counterexample:
  "is_float64 (2 / 2 ^ 1074) \<and> is_float64 (3 / 2 ^ 1074)
   \<and> 1 / 2 < (2 / 2 ^ 1074) / (3 / 2 ^ 1074 :: rat)
   \<and> aRoadTotal_loop (Steps subnormal_leg) (Finite 0) = Inr (Finite (2 / 2 ^ 1074))
   \<and> fdiv (leg_Distance_Value subnormal_leg) (Finite 2) = Finite (2 / 2 ^ 1074)
   \<and> multiplier_of (Finite (2 / 2 ^ 1074)) (Finite (3 / 2 ^ 1074)) 5 14 = Finite 1
   \<and> fst (snd (fst (CalculateCost
        (service_env (Drivers_Decoded example_roster)
           (Directions_Decoded \<lparr>Routes = [\<lparr>Legs = [subnormal_leg]\<rparr>]\<rparr>) 14)
        example_journey \<lparr>Name = ''Bob'', Rate = Finite 7\<rparr> 5))) = Finite 7"
proof -
  let ?e = "service_env (Drivers_Decoded example_roster)
              (Directions_Decoded \<lparr>Routes = [\<lparr>Legs = [subnormal_leg]\<rparr>]\<rparr>) 14"
  let ?bob = "\<lparr>Name = ''Bob'', Rate = Finite 7\<rparr>"
  have tiny: "\<bar>n / 2 ^ 1074\<bar> < (2::rat) ^ 1024" if "0 \<le> n" "n \<le> 3" for n :: rat
  proof -
    have "n / 2 ^ 1074 \<le> n / 1"
      using that(1) by (intro divide_left_mono) simp_all
    also have "n / 1 \<le> 3" using that(2) by simp
    also have "(3::rat) < 2 ^ 2" by simp
    also have "(2::rat) ^ 2 \<le> 2 ^ 1024" by (rule power_increasing) simp_all
    finally show ?thesis using that(1) by simp
  qed
  have f2: "is_float64 (2 / 2 ^ 1074)"
    unfolding is_float64_def using tiny [of 2] by (intro exI [of _ 2] exI [of _ 0]) simp
  have f3: "is_float64 (3 / 2 ^ 1074)"
    unfolding is_float64_def using tiny [of 3] by (intro exI [of _ 3] exI [of _ 0]) simp
  have share: "1 / 2 < (2 / 2 ^ 1074) / (3 / 2 ^ 1074 :: rat)" by simp
  have sum: "fadd (Finite 0) (Finite (2 / 2 ^ 1074)) = Finite (2 / 2 ^ 1074)"
    using round64_exact [OF f2] by (simp only: fadd.simps add_0_left)
  have total: "aRoadTotal_loop (Steps subnormal_leg) (Finite 0) = Inr (Finite (2 / 2 ^ 1074))"
    by (simp only: subnormal_leg_def Leg.simps Step.simps aRoadTotal_loop.simps sum)
       (simp add: regexp_Match_A_digits_def is_digit_def)
  have "(3 / 2 ^ 1074 / 2 :: rat) = (3 / 2) / 2 ^ 1074" by simp
  moreover have "round64 ((3 / 2) / 2 ^ 1074) = Finite (of_int (round_half_even (3 / 2)) / 2 ^ 1074)"
    by (rule round64_subnormal) simp_all
  moreover have "round_half_even (3 / 2) = 2"
  proof -
    have "\<lfloor>3 / 2 :: rat\<rfloor> = 1" by (rule floor_unique) simp_all
    then show ?thesis by (simp add: round_half_even_def Let_def)
  qed
  ultimately have half: "fdiv (Finite (3 / 2 ^ 1074)) (Finite 2) = Finite (2 / 2 ^ 1074)"
    by (simp only: fdiv.simps) simp
  then have half_leg: "fdiv (leg_Distance_Value subnormal_leg) (Finite 2) = Finite (2 / 2 ^ 1074)"
    by (simp only: subnormal_leg_def Leg.simps)
  have mult: "multiplier_of (Finite (2 / 2 ^ 1074)) (Finite (3 / 2 ^ 1074)) 5 14 = Finite 1"
    by (simp only: multiplier_of_def half fgt_def flt.simps) (simp add: surge_values)
  have "fst (snd (fst (CalculateCost ?e example_journey ?bob 5)))
      = fmul (multiplier_of (Finite (2 / 2 ^ 1074)) (Finite (3 / 2 ^ 1074)) 5 14) (Finite 7)"
    by (simp only: CalculateCost_def price_def service_env_def Let_def total
          env.simps Directions.simps Route.simps Driver.simps
          directions_outcome.case list.case sum.case fst_conv snd_conv)
       (simp only: subnormal_leg_def Leg.simps)
  then have run: "fst (snd (fst (CalculateCost ?e example_journey ?bob 5))) = Finite 7"
    by (simp only: mult) simp
  from f2 f3 share total half_leg mult run show ?thesis by (simp only: simp_thms)
qed

text \<open>
  Claim C5, amended. When the distance of the first leg is 0 and the driver's rate is
  finite, \<open>CalculateCost\<close> returns no error and the cost 0; the program divides by
  the constants 2 and 1000 only. The road rule compares the major-road total with half
  of the leg's distance, which is 0 here: it applies exactly when the major-road total
  is greater than 0.
\<close>

theorem C5_zero_distance:
  "directions_service e journey = Directions_Decoded directions \<Longrightarrow>
   Routes directions = route # other_routes \<Longrightarrow> Legs route = leg # other_legs \<Longrightarrow>
   leg_Distance_Value leg = Finite 0 \<Longrightarrow> is_finite (Rate driver) \<Longrightarrow>
   \<exists>aRoadTotal.
       aRoadTotal_loop (Steps leg) (Finite 0) = Inr aRoadTotal
     \<and> fst (CalculateCost e journey driver numDrivers) =
         (Finite 0,
          fmul (surge (fgt aRoadTotal (Finite 0)) (numDrivers < 5)
                  (clock_hour e > 22 \<or> clock_hour e < 6)) (Rate driver),
          None)"
proof -
  assume svc: "directions_service e journey = Directions_Decoded directions"
    and routes: "Routes directions = route # other_routes"
    and legs: "Legs route = leg # other_legs"
    and zero: "leg_Distance_Value leg = Finite 0"
    and rate: "is_finite (Rate driver)"
  obtain aRoadTotal where a: "aRoadTotal_loop (Steps leg) (Finite 0) = Inr aRoadTotal"
    by (simp add: aRoadTotal_loop_foldl)
  from rate obtain r where r: "Rate driver = Finite r" by (cases "Rate driver") simp_all
  have "fst (CalculateCost e journey driver numDrivers)
          = price directions driver numDrivers (clock_hour e)"
    by (simp add: CalculateCost_def svc)
  also have "\<dots> = (Finite 0,
          fmul (surge (fgt aRoadTotal (Finite 0)) (numDrivers < 5)
                  (clock_hour e > 22 \<or> clock_hour e < 6)) (Rate driver),
          None)"
    unfolding price_first_leg [OF routes legs a]
    by (simp add: zero r multiplier_of_def surge_values)
  finally show ?thesis using a by blast
qed

text \<open>
  Two legs of distance 0. With an unmatched step the road rule does not apply and the
  final rate is the base rate 7. With a step of 5 m on the A30, 3 drivers and hour 23
  all three rules apply and the final rate is 56. The cost is 0 in both.
\<close>

theorem C5_zero_distance_witness:
  "fst (CalculateCost
         (service_env (Drivers_Decoded example_roster)
            (Directions_Decoded \<lparr>Routes = [\<lparr>Legs = [unmatched_zero_leg]\<rparr>]\<rparr>) 14)
         example_journey \<lparr>Name = ''Bob'', Rate = Finite 7\<rparr> 5)
       = (Finite 0, Finite 7, None)
   \<and> fst (CalculateCost
         (service_env (Drivers_Decoded example_roster)
            (Directions_Decoded \<lparr>Routes = [\<lparr>Legs = [zero_distance_leg]\<rparr>]\<rparr>) 23)
         example_journey \<lparr>Name = ''Bob'', Rate = Finite 7\<rparr> 3)
       = (Finite 0, Finite 56, None)"
proof -
  let ?bob = "\<lparr>Name = ''Bob'', Rate = Finite 7\<rparr>"
  let ?d1 = "\<lparr>Routes = [\<lparr>Legs = [unmatched_zero_leg]\<rparr>]\<rparr>"
  let ?d2 = "\<lparr>Routes = [\<lparr>Legs = [zero_distance_leg]\<rparr>]\<rparr>"
  let ?e1 = "service_env (Drivers_Decoded example_roster) (Directions_Decoded ?d1) 14"
  let ?e2 = "service_env (Drivers_Decoded example_roster) (Directions_Decoded ?d2) 23"
  have svc1: "directions_service ?e1 example_journey = Directions_Decoded ?d1"
    and svc2: "directions_service ?e2 example_journey = Directions_Decoded ?d2"
    by (simp_all add: service_env_def)
  have total1: "aRoadTotal_loop (Steps unmatched_zero_leg) (Finite 0) = Inr (Finite 0)"
    by (simp add: unmatched_zero_leg_def regexp_Match_A_digits_def is_digit_def)
  have total2: "aRoadTotal_loop (Steps zero_distance_leg) (Finite 0) = Inr (Finite 5)"
    by (simp add: zero_distance_leg_def regexp_Match_A_digits_def is_digit_def)
  have zero1: "leg_Distance_Value unmatched_zero_leg = Finite 0"
    by (simp add: unmatched_zero_leg_def)
  have zero2: "leg_Distance_Value zero_distance_leg = Finite 0"
    by (simp add: zero_distance_leg_def)
  have r1: "fst (CalculateCost ?e1 example_journey ?bob 5) = (Finite 0, Finite 7, None)"
    using C5_zero_distance [where e = ?e1 and journey = example_journey and directions = ?d1
        and route = "\<lparr>Legs = [unmatched_zero_leg]\<rparr>" and other_routes = "[]"
        and leg = unmatched_zero_leg and other_legs = "[]" and driver = ?bob and numDrivers = 5,
        OF svc1 _ _ zero1]
    unfolding total1 by (simp add: service_env_def surge_values fgt_def)
  have r2: "fst (CalculateCost ?e2 example_journey ?bob 3) = (Finite 0, Finite 56, None)"
    using C5_zero_distance [where e = ?e2 and journey = example_journey and directions = ?d2
        and route = "\<lparr>Legs = [zero_distance_leg]\<rparr>" and other_routes = "[]"
        and leg = zero_distance_leg and other_legs = "[]" and driver = ?bob and numDrivers = 3,
        OF svc2 _ _ zero2]
    unfolding total2 by (simp add: service_env_def surge_values fgt_def)
  from r1 r2 show ?thesis by simp
qed

text \<open>
  Claim C5 as stated says that the road rule never applies on a leg of distance 0. On
  the leg whose only step is 5 m on the A30, with 5 drivers at hour 14, the major-road
  total is 5, the multiplier is 2 instead of 1 and the final rate is 14 instead of 7.
\<close>

theorem C5_zero_distance_counterexample:
  "leg_Distance_Value zero_distance_leg = Finite 0
   \<and> fst (CalculateCost
         (service_env (Drivers_Decoded example_roster)
            (Directions_Decoded \<lparr>Routes = [\<lparr>Legs = [zero_distance_leg]\<rparr>]\<rparr>) 14)
         example_journey \<lparr>Name = ''Bob'', Rate = Finite 7\<rparr> 5)
       = (Finite 0, Finite 14, None)
   \<and> aRoadTotal_loop (Steps zero_distance_leg) (Finite 0) = Inr (Finite 5)
   \<and> multiplier_of (Finite 5) (Finite 0) 5 14 = Finite 2
   \<and> surge False False False = Finite 1"
  by (simp add: CalculateCost_def price_def service_env_def zero_distance_leg_def
        regexp_Match_A_digits_def is_digit_def multiplier_of_def surge_values fgt_def)

text \<open>
  Claim C6, amended. The distance of a step of the first leg is added to the major-road
  total if and only if its instruction contains, anywhere, a capital \<open>A\<close> followed by
  one or more decimal digits; the distances are added in the order of the steps. The
  total distance in the threshold and in the cost is the leg's own distance field, and
  the result depends on the steps through the major-road total only.
\<close>

theorem C6_major_road_total:
  "aRoadTotal_loop steps aRoadTotal =
     Inr (foldl fadd aRoadTotal (map step_Distance_Value
            (filter (\<lambda>step. contains_A_number (Html_instructions step)) steps)))
   \<and> (directions_service e journey =
         Directions_Decoded \<lparr>Routes = \<lparr>Legs = leg # other_legs\<rparr> # other_routes\<rparr> \<longrightarrow>
       fst (CalculateCost e journey driver numDrivers) =
         (let total = leg_Distance_Value leg;
              major = foldl fadd (Finite 0) (map step_Distance_Value
                        (filter (\<lambda>step. contains_A_number (Html_instructions step)) (Steps leg)));
              multiplier = multiplier_of major total numDrivers (clock_hour e)
          in (fmul (fmul (fdiv total (Finite 1000)) (Rate driver)) multiplier,
              fmul multiplier (Rate driver),
              None)))"
  by (simp add: CalculateCost_def price_def Let_def aRoadTotal_loop_foldl has_A_digits_iff)

text \<open>
  The leg of the worked example: the step on the A38 counts, the other one does not, and
  the cost 280 comes from the leg's distance 10000, not from the 9990 its steps add up
  to.
\<close>

theorem C6_major_road_total_witness:
  "contains_A_number ''Merge onto <b>A38</b>''
   \<and> \<not> contains_A_number ''Turn left onto <b>Royal Parade</b>''
   \<and> aRoadTotal_loop (Steps example_leg) (Finite 0) = Inr (Finite 6000)
   \<and> fst (CalculateCost
        (service_env (Drivers_Decoded example_roster) (Directions_Decoded example_directions) 14)
        example_journey \<lparr>Name = ''Bob'', Rate = Finite 7\<rparr> 3)
     = (Finite 280, Finite 28, None)"
proof -
  let ?e = "service_env (Drivers_Decoded example_roster) (Directions_Decoded example_directions) 14"
  have yes: "contains_A_number ''Merge onto <b>A38</b>''"
    unfolding has_A_digits_iff [symmetric] by (simp add: is_digit_def)
  have no: "\<not> contains_A_number ''Turn left onto <b>Royal Parade</b>''"
    unfolding has_A_digits_iff [symmetric] by (simp add: is_digit_def)
  have svc: "directions_service ?e example_journey
      = Directions_Decoded \<lparr>Routes = \<lparr>Legs = example_leg # []\<rparr> # []\<rparr>"
    by (simp add: service_env_def example_directions_def)
  have major: "aRoadTotal_loop (Steps example_leg) (Finite 0) = Inr (Finite 6000)"
    using C6_major_road_total [where steps = "Steps example_leg" and aRoadTotal = "Finite 0"]
      yes no
    by (simp add: example_leg_def)
  have "fst (CalculateCost ?e example_journey \<lparr>Name = ''Bob'', Rate = Finite 7\<rparr> 3)
     = (Finite 280, Finite 28, None)"
    using C6_major_road_total [where e = ?e and journey = example_journey and leg = example_leg
        and other_legs = "[]" and other_routes = "[]"
        and driver = "\<lparr>Name = ''Bob'', Rate = Finite 7\<rparr>" and numDrivers = 3] svc yes no
    by (simp add: example_leg_def service_env_def multiplier_of_def surge_values fgt_def)
  with yes no major show ?thesis by simp
qed

text \<open>
  Claim C6 as stated counts every step whose instruction has a letter code followed by
  digits. The instruction of a step on the M5 has one, and its 500 m are not added.
\<close>

theorem C6_major_road_total_counterexample:
  "letter_code_then_digits ''Take the <b>M5</b> north''
   \<and> aRoadTotal_loop
        [\<lparr>step_Distance_Value = Finite 500, Html_instructions = ''Take the <b>M5</b> north''\<rparr>]
        (Finite 0) = Inr (Finite 0)"
  by (simp add: regexp_Match_A_digits_def is_digit_def is_letter_def)

text \<open>
  Claim C7. \<open>CalculateCost\<close> returns the error "No Route Found" if and only if the
  directions decode and have no route, or a first route without a leg. Otherwise, once
  the directions decode, there is no error, and the result is the same for any other
  directions with the same first leg of the first route, at the same hour.
\<close>

theorem C7_no_route_found:
  "(snd (snd (fst (CalculateCost e journey driver numDrivers))) = Some ''Error: No Route Found''
      \<longleftrightarrow> (\<exists>directions. directions_service e journey = Directions_Decoded directions
            \<and> (Routes directions = []
                \<or> (\<exists>route other_routes. Routes directions = route # other_routes \<and> Legs route = []))))
   \<and> (directions_service e journey =
          Directions_Decoded \<lparr>Routes = \<lparr>Legs = leg # other_legs\<rparr> # other_routes\<rparr>
        \<longrightarrow> directions_service e' journey =
          Directions_Decoded \<lparr>Routes = \<lparr>Legs = leg # other_legs'\<rparr> # other_routes'\<rparr>
        \<longrightarrow> clock_hour e' = clock_hour e
        \<longrightarrow> snd (snd (fst (CalculateCost e journey driver numDrivers))) = None
            \<and> CalculateCost e' journey driver numDrivers
                = CalculateCost e journey driver numDrivers)"
  by (auto simp: CalculateCost_def price_def Let_def aRoadTotal_loop_foldl
           split: directions_outcome.splits list.splits)

text \<open>
  A route without legs gives the error; a second leg and a second route change nothing.
\<close>

theorem C7_no_route_found_witness:
  "snd (snd (fst (CalculateCost
       (service_env (Drivers_Decoded example_roster) (Directions_Decoded \<lparr>Routes = [\<lparr>Legs = []\<rparr>]\<rparr>) 14)
       example_journey \<lparr>Name = ''Bob'', Rate = Finite 7\<rparr> 3))) = Some ''Error: No Route Found''
   \<and> CalculateCost
       (service_env (Drivers_Decoded example_roster)
          (Directions_Decoded
             \<lparr>Routes = [\<lparr>Legs = [detour_leg, detour_leg]\<rparr>, \<lparr>Legs = []\<rparr>]\<rparr>) 14)
       example_journey \<lparr>Name = ''Bob'', Rate = Finite 7\<rparr> 3
     = CalculateCost
       (service_env (Drivers_Decoded example_roster)
          (Directions_Decoded \<lparr>Routes = [\<lparr>Legs = [detour_leg]\<rparr>]\<rparr>) 14)
       example_journey \<lparr>Name = ''Bob'', Rate = Finite 7\<rparr> 3"
proof -
  let ?D = "Drivers_Decoded example_roster"
  let ?e0 = "service_env ?D (Directions_Decoded \<lparr>Routes = [\<lparr>Legs = []\<rparr>]\<rparr>) 14"
  let ?e1 = "service_env ?D (Directions_Decoded \<lparr>Routes = [\<lparr>Legs = [detour_leg]\<rparr>]\<rparr>) 14"
  let ?e2 = "service_env ?D (Directions_Decoded
               \<lparr>Routes = [\<lparr>Legs = [detour_leg, detour_leg]\<rparr>, \<lparr>Legs = []\<rparr>]\<rparr>) 14"
  let ?drv = "\<lparr>Name = ''Bob'', Rate = Finite 7\<rparr>"
  have a: "snd (snd (fst (CalculateCost ?e0 example_journey ?drv 3))) = Some ''Error: No Route Found''"
    using C7_no_route_found [where e = ?e0 and journey = example_journey and driver = ?drv
        and numDrivers = 3]
    by (simp add: service_env_def)
  have b: "CalculateCost ?e2 example_journey ?drv 3 = CalculateCost ?e1 example_journey ?drv 3"
    using C7_no_route_found [where e = ?e1 and e' = ?e2 and journey = example_journey
        and driver = ?drv and numDrivers = 3 and leg = detour_leg and other_legs = "[]"
        and other_routes = "[]" and other_legs' = "[detour_leg]"
        and other_routes' = "[\<lparr>Legs = []\<rparr>]"]
    by (simp add: service_env_def)
  from a b show ?thesis by simp
qed

subsection \<open>The handler\<close>

text \<open>
  Claim C8. \<open>FindBestDriver\<close> returns an error exactly when the request to the drivers
  service cannot be created, cannot be sent, or its answer does not decode. The handler
  then answers with status 500 and makes no further call: \<open>CalculateCost\<close> is not
  invoked and no request goes to the directions service.
\<close>

theorem C8_directory_failure_stops_quote:
  "(snd (snd (fst (FindBestDriver e))) \<noteq> None
      \<longleftrightarrow> drivers_service e \<in> {Drivers_NewRequest_failed, Drivers_Do_failed, Drivers_Decode_failed})
   \<and> (snd (snd (fst (FindBestDriver e))) \<noteq> None
        \<longrightarrow> fst (RiderRequest e (Inr journey)) = \<lparr>status = 500, content = No_body\<rparr>
            \<and> snd (RiderRequest e (Inr journey)) = snd (FindBestDriver e)
            \<and> Call_CalculateCost \<notin> set (snd (RiderRequest e (Inr journey)))
            \<and> Directions_request journey' \<notin> set (snd (RiderRequest e (Inr journey))))"
  by (cases "drivers_service e") (simp_all add: FindBestDriver_def RiderRequest_def)

text \<open>
  A drivers service that cannot be reached, and one whose answer does not decode.
\<close>

theorem C8_directory_failure_stops_quote_witness:
  "snd (snd (fst (FindBestDriver
       (service_env Drivers_Do_failed (Directions_Decoded example_directions) 14)))) \<noteq> None
   \<and> RiderRequest (service_env Drivers_Do_failed (Directions_Decoded example_directions) 14)
        (Inr example_journey)
       = (\<lparr>status = 500, content = No_body\<rparr>, [Drivers_request])
   \<and> RiderRequest (service_env Drivers_Decode_failed (Directions_Decoded example_directions) 14)
        (Inr example_journey)
       = (\<lparr>status = 500, content = No_body\<rparr>, [Drivers_request])"
proof -
  let ?e1 = "service_env Drivers_Do_failed (Directions_Decoded example_directions) 14"
  let ?e2 = "service_env Drivers_Decode_failed (Directions_Decoded example_directions) 14"
  have f1: "FindBestDriver ?e1
      = ((zero_Driver, 1, Some ''Error: HTTP request sending gailed''), [Drivers_request])"
    by (simp add: FindBestDriver_def service_env_def)
  have f2: "FindBestDriver ?e2
      = ((zero_Driver, 1, Some ''Error: Response body decoding failed''), [Drivers_request])"
    by (simp add: FindBestDriver_def service_env_def)
  have r1: "RiderRequest ?e1 (Inr example_journey)
      = (\<lparr>status = 500, content = No_body\<rparr>, [Drivers_request])"
    using C8_directory_failure_stops_quote [of ?e1 example_journey example_journey] f1
    by (simp add: prod_eq_iff)
  have r2: "RiderRequest ?e2 (Inr example_journey)
      = (\<lparr>status = 500, content = No_body\<rparr>, [Drivers_request])"
    using C8_directory_failure_stops_quote [of ?e2 example_journey example_journey] f2
    by (simp add: prod_eq_iff)
  from f1 r1 r2 show ?thesis by simp
qed

text \<open>
  Claim C9. The handler answers that no drivers are available exactly when
  \<open>FindBestDriver\<close> returns no error and a driver with the empty name. So for every
  decoded roster in which each driver of minimal rate has the empty name, also a
  roster that is not empty, the answer is that text, with status 200 and with the
  request to the drivers service as the only call.
\<close>

theorem C9_no_driver_by_empty_name:
  "(content (fst (RiderRequest e (Inr journey))) = Text ''No drivers available at this time.''
      \<longleftrightarrow> snd (snd (fst (FindBestDriver e))) = None \<and> Name (fst (fst (FindBestDriver e))) = [])
   \<and> (drivers_service e = Drivers_Decoded drivers \<longrightarrow> decoded_roster drivers
        \<longrightarrow> (\<forall>d \<in> snd ` set drivers.
               (\<forall>d' \<in> snd ` set drivers. fle (Rate d) (Rate d')) \<longrightarrow> Name d = [])
        \<longrightarrow> RiderRequest e (Inr journey) =
              (\<lparr>status = 200, content = Text ''No drivers available at this time.''\<rparr>,
               [Drivers_request]))"
proof (intro conjI impI)
  show "content (fst (RiderRequest e (Inr journey))) = Text ''No drivers available at this time.''
      \<longleftrightarrow> snd (snd (fst (FindBestDriver e))) = None \<and> Name (fst (fst (FindBestDriver e))) = []"
    by (auto simp: RiderRequest_def split: prod.splits sum.splits)
next
  assume svc: "drivers_service e = Drivers_Decoded drivers" and dec: "decoded_roster drivers"
    and unnamed: "\<forall>d \<in> snd ` set drivers.
       (\<forall>d' \<in> snd ` set drivers. fle (Rate d) (Rate d')) \<longrightarrow> Name d = []"
  let ?best = "snd (lowest_loop drivers (PosInf, zero_Driver))"
  have run: "FindBestDriver e = ((?best, int (length drivers), None), [Drivers_request])"
    by (simp add: FindBestDriver_def svc)
  have "Name ?best = []"
  proof (cases "drivers = []")
    case True
    then show ?thesis by (simp add: zero_Driver_def)
  next
    case False
    from lowest_loop_start [OF dec [unfolded decoded_roster_def] False, of zero_Driver]
    have "?best \<in> snd ` set drivers" "\<forall>d' \<in> snd ` set drivers. fle (Rate ?best) (Rate d')"
      by (auto simp: list_all_iff)
    with unnamed show ?thesis by blast
  qed
  then show "RiderRequest e (Inr journey) =
      (\<lparr>status = 200, content = Text ''No drivers available at this time.''\<rparr>, [Drivers_request])"
    by (simp add: RiderRequest_def run)
qed

text \<open>
  A roster of two drivers whose cheaper one has no name.
\<close>

theorem C9_no_driver_by_empty_name_witness:
  "decoded_roster unnamed_roster
   \<and> RiderRequest (service_env (Drivers_Decoded unnamed_roster)
         (Directions_Decoded example_directions) 14) (Inr example_journey)
       = (\<lparr>status = 200, content = Text ''No drivers available at this time.''\<rparr>,
          [Drivers_request])"
proof -
  let ?e = "service_env (Drivers_Decoded unnamed_roster) (Directions_Decoded example_directions) 14"
  have dec: "decoded_roster unnamed_roster"
    by (simp add: decoded_roster_def unnamed_roster_def)
  have svc: "drivers_service ?e = Drivers_Decoded unnamed_roster"
    by (simp add: service_env_def)
  have unnamed: "\<forall>d \<in> snd ` set unnamed_roster.
       (\<forall>d' \<in> snd ` set unnamed_roster. fle (Rate d) (Rate d')) \<longrightarrow> Name d = []"
    by (simp add: unnamed_roster_def)
  from C9_no_driver_by_empty_name [of ?e example_journey unnamed_roster] svc dec unnamed
  have "RiderRequest ?e (Inr example_journey)
       = (\<lparr>status = 200, content = Text ''No drivers available at this time.''\<rparr>,
          [Drivers_request])" by blast
  with dec show ?thesis by simp
qed

text \<open>
  Claim C10. Whenever \<open>CalculateCost\<close> returns an error, the cost and the final rate
  it returns are both 0.
\<close>

theorem C10_CalculateCost_error_zero:
  "CalculateCost e journey driver numDrivers = ((cost, final, err), calls) \<Longrightarrow>
   err \<noteq> None \<Longrightarrow> cost = Finite 0 \<and> final = Finite 0"
  by (auto simp: CalculateCost_def price_def Let_def aRoadTotal_loop_foldl
           split: directions_outcome.splits list.splits)

text \<open>
  The directions without a route, and a directions service that cannot be reached.
\<close>

theorem C10_CalculateCost_error_zero_witness:
  "CalculateCost (service_env Drivers_Do_failed (Directions_Decoded \<lparr>Routes = []\<rparr>) 14)
      example_journey \<lparr>Name = ''Bob'', Rate = Finite 7\<rparr> 3
     = ((Finite 0, Finite 0, Some ''Error: No Route Found''), [Directions_request example_journey])
   \<and> CalculateCost (service_env Drivers_Do_failed Directions_Do_failed 14)
      example_journey \<lparr>Name = ''Bob'', Rate = Finite 7\<rparr> 3
     = ((Finite 0, Finite 0, Some ''Error: HTTP request sending gailed''),
        [Directions_request example_journey])"
proof -
  obtain c1 f1 e1 k1 where r1:
    "CalculateCost (service_env Drivers_Do_failed (Directions_Decoded \<lparr>Routes = []\<rparr>) 14)
       example_journey \<lparr>Name = ''Bob'', Rate = Finite 7\<rparr> 3 = ((c1, f1, e1), k1)"
    by (metis prod.exhaust)
  then have v1: "e1 = Some ''Error: No Route Found''" "k1 = [Directions_request example_journey]"
    by (simp_all add: CalculateCost_def price_def service_env_def)
  obtain c2 f2 e2 k2 where r2:
    "CalculateCost (service_env Drivers_Do_failed Directions_Do_failed 14)
       example_journey \<lparr>Name = ''Bob'', Rate = Finite 7\<rparr> 3 = ((c2, f2, e2), k2)"
    by (metis prod.exhaust)
  then have v2: "e2 = Some ''Error: HTTP request sending gailed''"
      "k2 = [Directions_request example_journey]"
    by (simp_all add: CalculateCost_def service_env_def)
  from C10_CalculateCost_error_zero [OF r1] C10_CalculateCost_error_zero [OF r2] r1 r2 v1 v2
  show ?thesis by simp
qed

end
